theory Spec2Isabelle
  imports Complex_Main "HOL-Library.Sublist"
begin

text \<open>
  A model of the class \<open>VolumeFader\<close> of \<open>volumefader.js\<close> (v0.2.0): the two internal
  utilities, the constructor and the methods \<open>start\<close>, \<open>stop\<close>, \<open>setFadeDuration\<close>,
  \<open>updateVolume\<close>, \<open>fadeTo\<close>, \<open>fadeIn\<close> and \<open>fadeOut\<close>, as functions on the state of an
  instance, together with the media element, the animation-frame queue and the completion
  callbacks that the methods act on. The older interval-timer variant of the class
  (v0.1.0) is not modelled.
\<close>

section \<open>JavaScript numbers\<close>

text \<open>
  The arguments and fields of the fader are JavaScript values of type Number. The model
  keeps the three special values apart from the finite ones and computes on finite
  numbers with exact real arithmetic: rounding, overflow to an infinity and the sign of
  zero are left out (the single zero of the model behaves as \<open>+0\<close>).
\<close>

datatype jsnum = NaN | NegInf | Num real | PosInf

text \<open>The relational operators \<open><\<close>, \<open><=\<close>, \<open>></\<close>, \<open>>=\<close>: false as soon as an operand is NaN.\<close>

fun js_lt :: "jsnum \<Rightarrow> jsnum \<Rightarrow> bool" where
  "js_lt NaN b = False"
| "js_lt a NaN = False"
| "js_lt (Num x) (Num y) = (x < y)"
| "js_lt a NegInf = False"
| "js_lt NegInf b = True"
| "js_lt PosInf b = False"
| "js_lt (Num x) PosInf = True"

definition js_le :: "jsnum \<Rightarrow> jsnum \<Rightarrow> bool" where
  "js_le a b = (a \<noteq> NaN \<and> b \<noteq> NaN \<and> \<not> js_lt b a)"

definition js_gt :: "jsnum \<Rightarrow> jsnum \<Rightarrow> bool" where
  "js_gt a b = js_lt b a"

definition js_ge :: "jsnum \<Rightarrow> jsnum \<Rightarrow> bool" where
  "js_ge a b = js_le b a"

text \<open>\<open>a == b\<close> on two numbers: NaN equals nothing.\<close>

definition js_eq :: "jsnum \<Rightarrow> jsnum \<Rightarrow> bool" where
  "js_eq a b = (a \<noteq> NaN \<and> a = b)"

text \<open>\<open>Number.isNaN\<close>.\<close>

definition isNaN :: "jsnum \<Rightarrow> bool" where
  "isNaN a = (a = NaN)"

fun js_neg :: "jsnum \<Rightarrow> jsnum" where
  "js_neg NaN = NaN"
| "js_neg NegInf = PosInf"
| "js_neg (Num x) = Num (- x)"
| "js_neg PosInf = NegInf"

fun js_add :: "jsnum \<Rightarrow> jsnum \<Rightarrow> jsnum" where
  "js_add NaN b = NaN"
| "js_add a NaN = NaN"
| "js_add (Num x) (Num y) = Num (x + y)"
| "js_add PosInf NegInf = NaN"
| "js_add NegInf PosInf = NaN"
| "js_add PosInf b = PosInf"
| "js_add a PosInf = PosInf"
| "js_add NegInf b = NegInf"
| "js_add a NegInf = NegInf"

definition js_sub :: "jsnum \<Rightarrow> jsnum \<Rightarrow> jsnum" where
  "js_sub a b = js_add a (js_neg b)"

text \<open>The sign of a number that is not NaN, with zero counted as positive.\<close>

fun js_negative :: "jsnum \<Rightarrow> bool" where
  "js_negative NegInf = True"
| "js_negative (Num x) = (x < 0)"
| "js_negative a = False"

fun js_mul :: "jsnum \<Rightarrow> jsnum \<Rightarrow> jsnum" where
  "js_mul NaN b = NaN"
| "js_mul a NaN = NaN"
| "js_mul (Num x) (Num y) = Num (x * y)"
| "js_mul a b =
     (if a = Num 0 \<or> b = Num 0 then NaN
      else if js_negative a = js_negative b then PosInf else NegInf)"

fun js_div :: "jsnum \<Rightarrow> jsnum \<Rightarrow> jsnum" where
  "js_div NaN b = NaN"
| "js_div a NaN = NaN"
| "js_div (Num x) (Num y) =
     (if y \<noteq> 0 then Num (x / y)
      else if x = 0 then NaN
      else if x < 0 then NegInf else PosInf)"
| "js_div (Num x) b = Num 0"
| "js_div a (Num y) = (if js_negative a = (y < 0) then PosInf else NegInf)"
| "js_div a b = NaN"

text \<open>\<open>Math.pow(10, x)\<close>.\<close>

fun pow10 :: "jsnum \<Rightarrow> jsnum" where
  "pow10 NaN = NaN"
| "pow10 NegInf = Num 0"
| "pow10 (Num x) = Num (10 powr x)"
| "pow10 PosInf = PosInf"

text \<open>\<open>Date.now()\<close> returns a whole number of milliseconds; each reading is a parameter
  of the operation that takes it.\<close>

definition dateNow :: "int \<Rightarrow> jsnum" where
  "dateNow t = Num (of_int t)"

section \<open>The fader and its state\<close>

text \<open>
  A completion callback is \<open>undefined\<close> or another value that is not a function, or a
  function, kept by its identity. What a function does when it is called is given
  apart, by a \<open>program\<close> (below).
\<close>

datatype callback = NotFunction | Function nat

text \<open>\<open>this.fade\<close>: \<open>{ volume: {start, end}, time: {start, end}, callback }\<close>.\<close>

record fade_record =
  volume_start :: jsnum
  volume_end :: jsnum
  time_start :: jsnum
  time_end :: jsnum
  callback :: callback

text \<open>
  The instance, with the things of its environment that it acts on. \<open>mediaVolume\<close> is
  \<open>this.media.volume\<close>, and \<open>assigned\<close> lists the values that have been assigned to it,
  accepted by the media element or not, oldest first. \<open>frames\<close> counts the callbacks
  registered with \<open>requestAnimationFrame\<close> that have not fired yet. \<open>calls\<close> lists the
  completion callbacks invoked so far, oldest first. The volume scaler is a function of
  its argument alone. The logger is left out: it is taken to return and changes nothing.
\<close>

record fader =
  mediaVolume :: jsnum
  volumeScaler :: "jsnum \<Rightarrow> jsnum"
  fadeDuration :: jsnum
  active :: bool
  fade :: "fade_record option"
  frames :: nat
  calls :: "nat list"
  assigned :: "jsnum list"

text \<open>
  A method returns \<open>this\<close> or nothing, or throws; the state it leaves comes with it.
  \<open>TypeError\<close> is thrown by the fader's own checks and by the media element,
  \<open>IndexSizeError\<close> by the media element, \<open>RangeError\<close> by a call that the call stack has
  no room for, and \<open>CallbackException c\<close> is what the function \<open>c\<close> throws.
\<close>

datatype exn = TypeError | IndexSizeError | RangeError | CallbackException nat

datatype retval = This | Undefined

datatype completion = Return retval | Throw exn

text \<open>\<open>andThen res k\<close>: the statements \<open>k\<close> after a call that ended as \<open>res\<close>; they are
  skipped when the call threw. \<open>returning r res\<close>: \<open>return r\<close> after such a call.\<close>

definition andThen ::
  "completion \<times> fader \<Rightarrow> (fader \<Rightarrow> completion \<times> fader) \<Rightarrow> completion \<times> fader" where
  "andThen res k = (case fst res of Throw e \<Rightarrow> res | Return r \<Rightarrow> k (snd res))"

definition returning :: "retval \<Rightarrow> completion \<times> fader \<Rightarrow> completion \<times> fader" where
  "returning r res = andThen res (\<lambda>s. (Return r, s))"

subsection \<open>The media element\<close>

text \<open>
  Modelled from the spec: the host media object is not part of the repository; the spec
  gives it a readable and writable numeric \<open>volume\<close> attribute constrained to [0,1], and
  the constructor accepts an \<open>HTMLMediaElement\<close> only. As that element does, an assignment
  of a finite value outside [0,1] throws \<open>IndexSizeError\<close> and an assignment of NaN or an
  infinity throws \<open>TypeError\<close>; both leave the volume as it was.
\<close>

definition acceptedVolume :: "jsnum \<Rightarrow> bool" where
  "acceptedVolume v = (case v of Num x \<Rightarrow> 0 \<le> x \<and> x \<le> 1 | _ \<Rightarrow> False)"

definition assignVolume :: "jsnum \<Rightarrow> fader \<Rightarrow> completion \<times> fader" where
  "assignVolume v s =
     (case v of
        Num x \<Rightarrow>
          if 0 \<le> x \<and> x \<le> 1
          then (Return Undefined, s\<lparr>mediaVolume := v, assigned := assigned s @ [v]\<rparr>)
          else (Throw IndexSizeError, s\<lparr>assigned := assigned s @ [v]\<rparr>)
      | _ \<Rightarrow> (Throw TypeError, s\<lparr>assigned := assigned s @ [v]\<rparr>))"

subsection \<open>Internal utilities\<close>

text \<open>\<open>validateVolumeLevel\<close>: \<open>None\<close> when it returns, the exception when it throws.\<close>

definition validateVolumeLevel :: "jsnum \<Rightarrow> exn option" where
  "validateVolumeLevel v =
     (if \<not> isNaN v \<and> js_ge v (Num 0) \<and> js_le v (Num 1) then None
      else Some TypeError)"

definition exponentialScaler :: "jsnum \<Rightarrow> jsnum" where
  "exponentialScaler logarithmic =
     (if js_eq logarithmic (Num 0) then Num 0
      else pow10 (js_mul (js_sub logarithmic (Num 1)) (Num 3)))"

subsection \<open>Methods\<close>

text \<open>
  The methods take as their first argument \<open>callCb\<close> what a call of a completion callback
  does to the state (\<open>invoke\<close>, below).
\<close>

type_synonym invoker = "callback \<Rightarrow> fader \<Rightarrow> completion \<times> fader"

text \<open>The two local values of the interpolating branch of \<open>updateVolume\<close>.\<close>

definition fadeProgress :: "fade_record \<Rightarrow> int \<Rightarrow> jsnum" where
  "fadeProgress f now =
     js_div (js_sub (dateNow now) (time_start f)) (js_sub (time_end f) (time_start f))"

definition fadeLevel :: "fade_record \<Rightarrow> int \<Rightarrow> jsnum" where
  "fadeLevel f now =
     js_add (js_mul (fadeProgress f now) (js_sub (volume_end f) (volume_start f)))
       (volume_start f)"

text \<open>\<open>this.fade.callback instanceof Function && this.fade.callback()\<close>, followed by the
  statement after it, \<open>this.fade = undefined\<close>, which a throwing callback skips.\<close>

definition callBackAndClear :: "invoker \<Rightarrow> callback \<Rightarrow> fader \<Rightarrow> completion \<times> fader" where
  "callBackAndClear callCb cb s =
     (case cb of
        NotFunction \<Rightarrow> (Return This, s\<lparr>fade := None\<rparr>)
      | Function c \<Rightarrow> andThen (callCb cb s) (\<lambda>s'. (Return This, s'\<lparr>fade := None\<rparr>)))"

definition updateVolume :: "invoker \<Rightarrow> int \<Rightarrow> fader \<Rightarrow> completion \<times> fader" where
  "updateVolume callCb now s =
     (case (active s, fade s) of
        (True, Some f) \<Rightarrow>
          if js_lt (dateNow now) (time_end f) then
            andThen (assignVolume (volumeScaler s (fadeLevel f now)) s)
              (\<lambda>s'. (Return This, s'\<lparr>frames := Suc (frames s')\<rparr>))
          else
            andThen (assignVolume (volumeScaler s (volume_end f)) s)
              (\<lambda>s'. callBackAndClear callCb (callback f) (s'\<lparr>active := False\<rparr>))
      | _ \<Rightarrow> (Return This, s))"

definition start :: "invoker \<Rightarrow> int \<Rightarrow> fader \<Rightarrow> completion \<times> fader" where
  "start callCb now s = returning This (updateVolume callCb now (s\<lparr>active := True\<rparr>))"

definition stop :: "fader \<Rightarrow> completion \<times> fader" where
  "stop s = (Return This, s\<lparr>active := False\<rparr>)"

definition setFadeDuration :: "jsnum \<Rightarrow> fader \<Rightarrow> completion \<times> fader" where
  "setFadeDuration d s =
     (if \<not> isNaN d \<and> js_gt d (Num 0) then (Return This, s\<lparr>fadeDuration := d\<rparr>)
      else (Throw TypeError, s))"

text \<open>The record that \<open>fadeTo\<close> builds; \<open>t1\<close> and \<open>t2\<close> are its two readings of the clock.\<close>

definition newFade :: "int \<Rightarrow> int \<Rightarrow> jsnum \<Rightarrow> callback \<Rightarrow> fader \<Rightarrow> fade_record" where
  "newFade t1 t2 targetVolume cb s =
     \<lparr>volume_start = mediaVolume s, volume_end = targetVolume,
      time_start = dateNow t1, time_end = js_add (dateNow t2) (fadeDuration s),
      callback = cb\<rparr>"

text \<open>\<open>fadeTo\<close>; \<open>t3\<close> is the reading that the update step inside \<open>start\<close> takes.\<close>

definition fadeTo ::
  "invoker \<Rightarrow> int \<Rightarrow> int \<Rightarrow> int \<Rightarrow> jsnum \<Rightarrow> callback \<Rightarrow> fader \<Rightarrow> completion \<times> fader" where
  "fadeTo callCb t1 t2 t3 targetVolume cb s =
     (case validateVolumeLevel targetVolume of
        Some e \<Rightarrow> (Throw e, s)
      | None \<Rightarrow>
          returning This (start callCb t3 (s\<lparr>fade := Some (newFade t1 t2 targetVolume cb s)\<rparr>)))"

text \<open>The bodies of \<open>fadeIn\<close> and \<open>fadeOut\<close> are the call of \<open>fadeTo\<close> alone, with no
  \<open>return\<close>.\<close>

definition fadeIn ::
  "invoker \<Rightarrow> int \<Rightarrow> int \<Rightarrow> int \<Rightarrow> callback \<Rightarrow> fader \<Rightarrow> completion \<times> fader" where
  "fadeIn callCb t1 t2 t3 cb s = returning Undefined (fadeTo callCb t1 t2 t3 (Num 1) cb s)"

definition fadeOut ::
  "invoker \<Rightarrow> int \<Rightarrow> int \<Rightarrow> int \<Rightarrow> callback \<Rightarrow> fader \<Rightarrow> completion \<times> fader" where
  "fadeOut callCb t1 t2 t3 cb s = returning Undefined (fadeTo callCb t1 t2 t3 (Num 0) cb s)"

subsection \<open>Constructor\<close>

text \<open>The first argument is a media element with its current volume, or something else;
  \<open>options.volumeScaler\<close> is left out, a function, or another value; the two other
  options are left out (\<open>None\<close>) or numbers.\<close>

datatype media_arg = NotMediaElement | MediaElement jsnum

datatype scaler_option = ScalerUndefined | ScalerFunction "jsnum \<Rightarrow> jsnum" | ScalerOther

record options =
  opt_volumeScaler :: scaler_option
  opt_initialVolume :: "jsnum option"
  opt_fadeDuration :: "jsnum option"

text \<open>A new instance has no \<open>fade\<close> property; nothing is registered, no callback has been
  invoked and nothing has been assigned to the media volume.\<close>

definition instance0 :: "jsnum \<Rightarrow> (jsnum \<Rightarrow> jsnum) \<Rightarrow> fader" where
  "instance0 v sc =
     \<lparr>mediaVolume = v, volumeScaler = sc, fadeDuration = Num 500, active = False,
      fade = None, frames = 0, calls = [], assigned = []\<rparr>"

definition withInitialVolume :: "jsnum option \<Rightarrow> fader \<Rightarrow> exn + fader" where
  "withInitialVolume ov s =
     (case ov of
        None \<Rightarrow> Inr s
      | Some v \<Rightarrow>
          (case validateVolumeLevel v of
             Some e \<Rightarrow> Inl e
           | None \<Rightarrow>
               (case assignVolume (volumeScaler s v) s of
                  (Throw e, s') \<Rightarrow> Inl e
                | (Return r, s') \<Rightarrow> Inr s')))"

definition withFadeDuration :: "jsnum option \<Rightarrow> fader \<Rightarrow> exn + fader" where
  "withFadeDuration od s =
     (case od of
        None \<Rightarrow> Inr (s\<lparr>fadeDuration := Num 500, active := False\<rparr>)
      | Some d \<Rightarrow>
          (case setFadeDuration d s of
             (Throw e, s') \<Rightarrow> Inl e
           | (Return r, s') \<Rightarrow> Inr (s'\<lparr>active := False\<rparr>)))"

definition construct :: "media_arg \<Rightarrow> options \<Rightarrow> exn + fader" where
  "construct media opts =
     (case media of
        NotMediaElement \<Rightarrow> Inl TypeError
      | MediaElement v \<Rightarrow>
          (case opt_volumeScaler opts of
             ScalerOther \<Rightarrow> Inl TypeError
           | sc \<Rightarrow>
               (case withInitialVolume (opt_initialVolume opts)
                       (instance0 v (case sc of ScalerFunction g \<Rightarrow> g | _ \<Rightarrow> exponentialScaler)) of
                  Inl e \<Rightarrow> Inl e
                | Inr s \<Rightarrow> withFadeDuration (opt_fadeDuration opts) s)))"

section \<open>Completion callbacks\<close>

text \<open>
  A call of a method of the instance, by its user or from inside a completion callback.
\<close>

datatype call =
    Start int
  | Stop
  | SetFadeDuration jsnum
  | UpdateVolume int
  | FadeTo int int int jsnum callback
  | FadeIn int int int callback
  | FadeOut int int int callback

fun performCall :: "invoker \<Rightarrow> call \<Rightarrow> fader \<Rightarrow> completion \<times> fader" where
  "performCall callCb (Start now) s = start callCb now s"
| "performCall callCb Stop s = stop s"
| "performCall callCb (SetFadeDuration d) s = setFadeDuration d s"
| "performCall callCb (UpdateVolume now) s = updateVolume callCb now s"
| "performCall callCb (FadeTo t1 t2 t3 v cb) s = fadeTo callCb t1 t2 t3 v cb s"
| "performCall callCb (FadeIn t1 t2 t3 cb) s = fadeIn callCb t1 t2 t3 cb s"
| "performCall callCb (FadeOut t1 t2 t3 cb) s = fadeOut callCb t1 t2 t3 cb s"

text \<open>
  What a function does when it is called: it makes method calls on the fader, one after
  the other, and then returns or throws; an exception of one of the calls ends the
  function with that exception. Which calls it makes may depend on the state it is
  called in. A \<open>program\<close> gives this for every function. A function that catches the
  exception of such a call, or that assigns to a property of the fader or of the media
  element itself, is outside the model.
\<close>

datatype behaviour = Returns | Throws

datatype body = Body "call list" behaviour

type_synonym program = "nat \<Rightarrow> fader \<Rightarrow> body"

fun runCalls :: "invoker \<Rightarrow> call list \<Rightarrow> fader \<Rightarrow> completion \<times> fader" where
  "runCalls callCb [] s = (Return Undefined, s)"
| "runCalls callCb (c # cs) s = andThen (performCall callCb c s) (runCalls callCb cs)"

text \<open>
  The call of a callback with room for \<open>depth\<close> nested callback calls on the call stack:
  with no room left the call throws \<open>RangeError\<close> and the function does not run;
  otherwise the call is recorded and the body runs, its own callback calls having one
  level less.
\<close>

primrec invoke :: "program \<Rightarrow> nat \<Rightarrow> callback \<Rightarrow> fader \<Rightarrow> completion \<times> fader" where
  "invoke prog 0 cb s = (Throw RangeError, s)"
| "invoke prog (Suc depth) cb s =
     (case cb of
        NotFunction \<Rightarrow> (Throw TypeError, s)
      | Function c \<Rightarrow>
          (case prog c s of
             Body cs b \<Rightarrow>
               andThen (runCalls (invoke prog depth) cs (s\<lparr>calls := calls s @ [c]\<rparr>))
                 (\<lambda>s'. case b of
                          Returns \<Rightarrow> (Return Undefined, s')
                        | Throws \<Rightarrow> (Throw (CallbackException c), s'))))"

section \<open>Using an instance\<close>

text \<open>What can happen to an instance: its user calls one of its methods, or the browser
  runs one of the registered animation-frame callbacks (each is a bound \<open>updateVolume\<close>).\<close>

datatype event = Call call | AnimationFrame int

fun perform :: "invoker \<Rightarrow> event \<Rightarrow> fader \<Rightarrow> completion \<times> fader" where
  "perform callCb (Call c) s = performCall callCb c s"
| "perform callCb (AnimationFrame now) s =
     (if frames s = 0 then (Return Undefined, s)
      else updateVolume callCb now (s\<lparr>frames := frames s - 1\<rparr>))"

text \<open>A user that goes on after an exception goes on with the state the exception left.\<close>

fun run :: "invoker \<Rightarrow> event list \<Rightarrow> fader \<Rightarrow> fader" where
  "run callCb [] s = s"
| "run callCb (e # es) s = run callCb es (snd (perform callCb e s))"

text \<open>The states that an instance reaches from its construction, with the callbacks of
  \<open>prog\<close> and any room on the call stack at each event.\<close>

inductive reachable :: "program \<Rightarrow> fader \<Rightarrow> bool" for prog :: program where
  constructed: "construct media opts = Inr s \<Longrightarrow> reachable prog s"
| performed: "reachable prog s \<Longrightarrow> reachable prog (snd (perform (invoke prog depth) e s))"

text \<open>The identities of the functions that a value, a record, a call, an event or a body
  carries as completion callbacks.\<close>

fun callbackIds :: "callback \<Rightarrow> nat set" where
  "callbackIds NotFunction = {}"
| "callbackIds (Function c) = {c}"

definition fadeIds :: "fader \<Rightarrow> nat set" where
  "fadeIds s = (case fade s of None \<Rightarrow> {} | Some f \<Rightarrow> callbackIds (callback f))"

fun callIds :: "call \<Rightarrow> nat set" where
  "callIds (FadeTo t1 t2 t3 v cb) = callbackIds cb"
| "callIds (FadeIn t1 t2 t3 cb) = callbackIds cb"
| "callIds (FadeOut t1 t2 t3 cb) = callbackIds cb"
| "callIds c = {}"

fun eventIds :: "event \<Rightarrow> nat set" where
  "eventIds (Call c) = callIds c"
| "eventIds (AnimationFrame now) = {}"

fun bodyIds :: "body \<Rightarrow> nat set" where
  "bodyIds (Body cs b) = (\<Union>c \<in> set cs. callIds c)"

section \<open>Derived notions and example states\<close>

text \<open>The fade level that an update step on the record \<open>f\<close> at the reading \<open>now\<close> hands
  to the volume scaler: the interpolated level while time is left, the end volume after.\<close>

definition stepLevel :: "fade_record \<Rightarrow> int \<Rightarrow> jsnum" where
  "stepLevel f now = (if js_lt (dateNow now) (time_end f) then fadeLevel f now else volume_end f)"

text \<open>Three programs: every function returns at once; every function throws at once;
  every function calls \<open>fadeTo(1)\<close> with the clock at 500 and returns.\<close>

definition returningAtOnce :: program where
  "returningAtOnce c s = Body [] Returns"

definition throwingAtOnce :: program where
  "throwingAtOnce c s = Body [] Throws"

definition chaining :: program where
  "chaining c s = Body [FadeTo 500 500 500 (Num 1) NotFunction] Returns"

text \<open>\<open>new VolumeFader(media)\<close> on a media element at full volume, and that instance after
  \<open>fadeTo(0, cb)\<close> with the clock at 0: a fade from 1 to 0 that ends at 500.\<close>

definition noOptions :: options where
  "noOptions = \<lparr>opt_volumeScaler = ScalerUndefined, opt_initialVolume = None,
     opt_fadeDuration = None\<rparr>"

definition newFader :: fader where
  "newFader = (case construct (MediaElement (Num 1)) noOptions of Inr s \<Rightarrow> s)"

definition fadingOut :: "callback \<Rightarrow> fader" where
  "fadingOut cb = snd (fadeTo (invoke returningAtOnce 1) 0 0 0 (Num 0) cb newFader)"

text \<open>The same fade with no callback after one animation frame at 250, and the same call
  made with the clock at 1000.\<close>

definition halfway :: fader where
  "halfway = snd (perform (invoke returningAtOnce 1) (AnimationFrame 250) (fadingOut NotFunction))"

definition fadingOutLater :: fader where
  "fadingOutLater =
     snd (fadeTo (invoke returningAtOnce 1) 1000 1000 1000 (Num 0) NotFunction newFader)"

text \<open>A finite number strictly greater than zero.\<close>

definition finitePositive :: "jsnum \<Rightarrow> bool" where
  "finitePositive d = (case d of Num x \<Rightarrow> 0 < x | _ \<Rightarrow> False)"

text \<open>While the media element has accepted every volume assigned to it: if the fader is
  active and holds a fade record, an animation-frame callback is registered.\<close>

definition registeredWhileFading :: "fader \<Rightarrow> bool" where
  "registeredWhileFading s =
     ((\<forall>v \<in> set (assigned s). acceptedVolume v) \<longrightarrow> active s \<and> fade s \<noteq> None \<longrightarrow> 0 < frames s)"

text \<open>
  A relation between the state before and the state after that every step of a method
  keeps: it is reflexive and transitive, and it holds across an assignment to the media
  volume and across a change of the other fields that the methods change. \<open>callbackKeeps\<close>:
  it holds across every call of a completion callback.
\<close>

definition kept :: "(fader \<Rightarrow> fader \<Rightarrow> bool) \<Rightarrow> bool" where
  "kept R =
     ((\<forall>s. R s s) \<and> (\<forall>s t u. R s t \<and> R t u \<longrightarrow> R s u) \<and>
      (\<forall>s v. R s (snd (assignVolume v s))) \<and>
      (\<forall>s a. R s (s\<lparr>active := a\<rparr>)) \<and> (\<forall>s f. R s (s\<lparr>fade := f\<rparr>)) \<and>
      (\<forall>s n. R s (s\<lparr>frames := n\<rparr>)) \<and> (\<forall>s d. R s (s\<lparr>fadeDuration := d\<rparr>)) \<and>
      (\<forall>s l. R s (s\<lparr>calls := l\<rparr>)))"

definition callbackKeeps :: "(fader \<Rightarrow> fader \<Rightarrow> bool) \<Rightarrow> invoker \<Rightarrow> bool" where
  "callbackKeeps R callCb = (\<forall>cb s. R s (snd (callCb cb s)))"

text \<open>
  \<open>untouched c s s'\<close>: from \<open>s\<close> to \<open>s'\<close> the function \<open>c\<close> has not been invoked, and \<open>s'\<close> holds no
  fade record with \<open>c\<close> as its callback. \<open>spares c callCb\<close>: a call of a callback other than
  \<open>c\<close>, in a state that holds no record with \<open>c\<close>, leaves \<open>c\<close> untouched.
\<close>

definition untouched :: "nat \<Rightarrow> fader \<Rightarrow> fader \<Rightarrow> bool" where
  "untouched c s s' = (count_list (calls s') c = count_list (calls s) c \<and> c \<notin> fadeIds s')"

definition spares :: "nat \<Rightarrow> invoker \<Rightarrow> bool" where
  "spares c callCb =
     (\<forall>cb s. cb \<noteq> Function c \<and> c \<notin> fadeIds s \<longrightarrow> untouched c s (snd (callCb cb s)))"

text \<open>\<open>callbackRegisters callCb\<close>: a call of a callback keeps \<open>registeredWhileFading\<close>.\<close>

definition callbackRegisters :: "invoker \<Rightarrow> bool" where
  "callbackRegisters callCb =
     (\<forall>cb s. registeredWhileFading s \<longrightarrow> registeredWhileFading (snd (callCb cb s)))"

section \<open>Facts about numbers and the utilities\<close>

lemma js_le_Num [simp]: "js_le (Num x) (Num y) = (x \<le> y)"
  by (auto simp: js_le_def)

lemma js_le_NaN [simp]: "\<not> js_le NaN b" "\<not> js_le a NaN"
  by (simp_all add: js_le_def)

lemma js_le_imp_not_lt: "js_le a b \<Longrightarrow> \<not> js_lt b a"
  by (simp add: js_le_def)

lemma js_unit_interval:
  assumes "js_le (Num 0) v" and "js_le v (Num 1)"
  obtains x where "v = Num x" and "0 \<le> x" and "x \<le> 1"
  using assms by (cases v) (auto simp: js_le_def)

lemma js_gt_zero:
  "(\<not> isNaN d \<and> js_gt d (Num 0)) = (d = PosInf \<or> finitePositive d)"
  by (cases d) (auto simp: isNaN_def js_gt_def finitePositive_def)

lemma validateVolumeLevel_None:
  "(validateVolumeLevel v = None) = (\<exists>x. v = Num x \<and> 0 \<le> x \<and> x \<le> 1)"
  by (cases v) (auto simp: validateVolumeLevel_def isNaN_def js_ge_def js_le_def)

lemma acceptedVolume_Num [simp]: "acceptedVolume (Num x) = (0 \<le> x \<and> x \<le> 1)"
  by (simp add: acceptedVolume_def)

lemma acceptedVolume_iff: "acceptedVolume v = (js_le (Num 0) v \<and> js_le v (Num 1))"
  by (cases v) (auto simp: acceptedVolume_def js_le_def)

lemma exponentialScaler_one: "exponentialScaler (Num 1) = Num 1"
  by (simp add: exponentialScaler_def js_eq_def js_sub_def)

lemma exponentialScaler_zero: "exponentialScaler (Num 0) = Num 0"
  by (simp add: exponentialScaler_def js_eq_def)

lemma exponentialScaler_unit:
  assumes "0 \<le> x" and "x \<le> 1"
  shows "\<exists>y. exponentialScaler (Num x) = Num y \<and> 0 \<le> y \<and> y \<le> 1"
proof (cases "x = 0")
  case True
  then show ?thesis by (simp add: exponentialScaler_def js_eq_def)
next
  case False
  have "(x - 1) * 3 \<le> 0" using assms by simp
  then have "(10::real) powr ((x - 1) * 3) \<le> 10 powr 0"
    by (intro powr_mono) simp_all
  then show ?thesis using False
    by (simp add: exponentialScaler_def js_eq_def js_sub_def)
qed

lemma andThen_simps [simp]:
  "andThen (Return r, s) k = k s"
  "andThen (Throw e, s) k = (Throw e, s)"
  by (simp_all add: andThen_def)

lemma returning_simps [simp]:
  "returning r (Return x, s) = (Return r, s)"
  "returning r (Throw e, s) = (Throw e, s)"
  by (simp_all add: returning_def)

lemma returning_snd [simp]: "snd (returning r res) = snd res"
  by (cases res) (auto simp: returning_def andThen_def split: completion.splits)

lemma assignVolume_accepted:
  assumes "acceptedVolume v"
  shows "assignVolume v s = (Return Undefined, s\<lparr>mediaVolume := v, assigned := assigned s @ [v]\<rparr>)"
  using assms by (cases v) (simp_all add: assignVolume_def acceptedVolume_def)

lemma assignVolume_rejected:
  assumes "\<not> acceptedVolume v"
  shows "assignVolume v s =
    (Throw (case v of Num x \<Rightarrow> IndexSizeError | _ \<Rightarrow> TypeError), s\<lparr>assigned := assigned s @ [v]\<rparr>)"
  using assms by (cases v) (simp_all add: assignVolume_def acceptedVolume_def)

lemma assignVolume_cases:
  obtains (accepted) "acceptedVolume v"
      and "assignVolume v s = (Return Undefined, s\<lparr>mediaVolume := v, assigned := assigned s @ [v]\<rparr>)"
    | (rejected) e where "\<not> acceptedVolume v"
      and "assignVolume v s = (Throw e, s\<lparr>assigned := assigned s @ [v]\<rparr>)"
proof (cases "acceptedVolume v")
  case True
  then show ?thesis using accepted assignVolume_accepted by blast
next
  case False
  then show ?thesis using rejected assignVolume_rejected by blast
qed

section \<open>The example states\<close>

lemma newFader_eq:
  "newFader = \<lparr>mediaVolume = Num 1, volumeScaler = exponentialScaler, fadeDuration = Num 500,
     active = False, fade = None, frames = 0, calls = [], assigned = []\<rparr>"
  by (simp add: newFader_def construct_def noOptions_def withInitialVolume_def
      withFadeDuration_def instance0_def)

lemma newFader_constructed: "construct (MediaElement (Num 1)) noOptions = Inr newFader"
  by (simp add: newFader_eq construct_def noOptions_def withInitialVolume_def
      withFadeDuration_def instance0_def)

lemma fadeTo_on_newFader:
  assumes "0 \<le> t"
  shows "fadeTo callCb t t t (Num 0) cb newFader =
    (Return This,
     \<lparr>mediaVolume = Num 1, volumeScaler = exponentialScaler, fadeDuration = Num 500,
      active = True,
      fade = Some \<lparr>volume_start = Num 1, volume_end = Num 0, time_start = Num (of_int t),
        time_end = Num (of_int t + 500), callback = cb\<rparr>,
      frames = 1, calls = [], assigned = [Num 1]\<rparr>)"
  by (simp add: fadeTo_def validateVolumeLevel_def isNaN_def js_ge_def
      newFade_def start_def updateVolume_def newFader_eq dateNow_def fadeLevel_def
      fadeProgress_def js_sub_def exponentialScaler_one assignVolume_accepted)

lemma fadingOut_eq:
  "fadingOut cb = \<lparr>mediaVolume = Num 1, volumeScaler = exponentialScaler,
     fadeDuration = Num 500, active = True,
     fade = Some \<lparr>volume_start = Num 1, volume_end = Num 0, time_start = Num 0,
       time_end = Num 500, callback = cb\<rparr>,
     frames = 1, calls = [], assigned = [Num 1]\<rparr>"
  by (simp add: fadingOut_def fadeTo_on_newFader)

lemma fadingOutLater_eq:
  "fadingOutLater = \<lparr>mediaVolume = Num 1, volumeScaler = exponentialScaler,
     fadeDuration = Num 500, active = True,
     fade = Some \<lparr>volume_start = Num 1, volume_end = Num 0, time_start = Num 1000,
       time_end = Num 1500, callback = NotFunction\<rparr>,
     frames = 1, calls = [], assigned = [Num 1]\<rparr>"
  by (simp add: fadingOutLater_def fadeTo_on_newFader)

lemma halfway_eq:
  "halfway = \<lparr>mediaVolume = Num (10 powr (- 3 / 2)), volumeScaler = exponentialScaler,
     fadeDuration = Num 500, active = True,
     fade = Some \<lparr>volume_start = Num 1, volume_end = Num 0, time_start = Num 0,
       time_end = Num 500, callback = NotFunction\<rparr>,
     frames = 1, calls = [], assigned = [Num 1, Num (10 powr (- 3 / 2))]\<rparr>"
proof -
  have "10 powr (- 3 / 2) \<le> (10::real) powr 0"
    by (intro powr_mono) simp_all
  then have "acceptedVolume (Num (10 powr (- 3 / 2)))" by simp
  then show ?thesis
    by (simp add: halfway_def fadingOut_eq updateVolume_def dateNow_def fadeLevel_def
      fadeProgress_def js_sub_def exponentialScaler_def js_eq_def assignVolume_accepted)
qed

section \<open>Relations that the methods keep\<close>

lemma keptD:
  assumes "kept R"
  shows "R s s" and "R s t \<Longrightarrow> R t u \<Longrightarrow> R s u"
    and "R s (snd (assignVolume v s))"
    and "R s (s\<lparr>active := a\<rparr>)" and "R s (s\<lparr>fade := f\<rparr>)"
    and "R s (s\<lparr>frames := n\<rparr>)" and "R s (s\<lparr>fadeDuration := d\<rparr>)"
    and "R s (s\<lparr>calls := l\<rparr>)"
  using assms unfolding kept_def by blast+

lemma andThen_kept:
  assumes "kept R" and "R s (snd res)" and "\<And>s'. R s' (snd (k s'))"
  shows "R s (snd (andThen res k))"
proof (cases "fst res")
  case (Return r)
  then have "snd (andThen res k) = snd (k (snd res))"
    by (simp add: andThen_def)
  with assms show ?thesis
    using keptD(2) [OF assms(1), of s "snd res" "snd (k (snd res))"] by simp
next
  case (Throw e)
  then have "andThen res k = res" by (simp add: andThen_def)
  with assms(2) show ?thesis by simp
qed

lemma callBackAndClear_kept:
  assumes "kept R" and "callbackKeeps R callCb"
  shows "R s (snd (callBackAndClear callCb cb s))"
proof (cases cb)
  case NotFunction
  then show ?thesis by (simp add: callBackAndClear_def keptD(5) [OF assms(1)])
next
  case (Function c)
  have "R s (snd (andThen (callCb cb s) (\<lambda>s'. (Return This, s'\<lparr>fade := None\<rparr>))))"
    using assms(2) by (intro andThen_kept [OF assms(1)]) (simp_all add: callbackKeeps_def keptD(5) [OF assms(1)])
  with Function show ?thesis by (simp add: callBackAndClear_def)
qed

lemma updateVolume_kept:
  assumes "kept R" and "callbackKeeps R callCb"
  shows "R s (snd (updateVolume callCb now s))"
proof (cases "active s \<and> fade s \<noteq> None")
  case False
  then have "updateVolume callCb now s = (Return This, s)"
    by (auto simp: updateVolume_def split: bool.splits option.splits)
  then show ?thesis by (simp add: keptD(1) [OF assms(1)])
next
  case True
  then obtain f where f: "fade s = Some f" and a: "active s" by auto
  show ?thesis
  proof (cases "js_lt (dateNow now) (time_end f)")
    case True
    have "R s (snd (andThen (assignVolume (volumeScaler s (fadeLevel f now)) s)
              (\<lambda>s'. (Return This, s'\<lparr>frames := Suc (frames s')\<rparr>))))"
      by (intro andThen_kept [OF assms(1)]) (simp_all add: keptD [OF assms(1)])
    with True f a show ?thesis by (simp add: updateVolume_def)
  next
    case False
    have "R s' (snd (callBackAndClear callCb (callback f) (s'\<lparr>active := False\<rparr>)))" for s'
      using keptD(2) [OF assms(1) keptD(4) [OF assms(1)] callBackAndClear_kept [OF assms]] .
    then have "R s (snd (andThen (assignVolume (volumeScaler s (volume_end f)) s)
              (\<lambda>s'. callBackAndClear callCb (callback f) (s'\<lparr>active := False\<rparr>))))"
      by (intro andThen_kept [OF assms(1)]) (simp_all add: keptD [OF assms(1)])
    with False f a show ?thesis by (simp add: updateVolume_def)
  qed
qed

lemma start_kept:
  assumes "kept R" and "callbackKeeps R callCb"
  shows "R s (snd (start callCb now s))"
  using keptD(2) [OF assms(1) keptD(4) [OF assms(1)] updateVolume_kept [OF assms]]
  by (simp add: start_def)

lemma fadeTo_kept:
  assumes "kept R" and "callbackKeeps R callCb"
  shows "R s (snd (fadeTo callCb t1 t2 t3 v cb s))"
  using keptD(2) [OF assms(1) keptD(5) [OF assms(1)] start_kept [OF assms]] keptD(1) [OF assms(1)]
  by (simp add: fadeTo_def split: option.splits)

lemma performCall_kept:
  assumes "kept R" and "callbackKeeps R callCb"
  shows "R s (snd (performCall callCb c s))"
  by (cases c)
    (simp_all add: start_kept [OF assms] fadeTo_kept [OF assms] updateVolume_kept [OF assms]
      stop_def setFadeDuration_def fadeIn_def fadeOut_def keptD [OF assms(1)])

lemma runCalls_kept:
  assumes "kept R" and "callbackKeeps R callCb"
  shows "R s (snd (runCalls callCb cs s))"
proof (induction cs arbitrary: s)
  case Nil
  then show ?case by (simp add: keptD(1) [OF assms(1)])
next
  case (Cons c cs)
  show ?case
    using Cons.IH performCall_kept [OF assms]
    by (simp add: andThen_kept [OF assms(1)])
qed

lemma invoke_kept:
  assumes "kept R"
  shows "callbackKeeps R (invoke prog depth)"
proof (induction depth)
  case 0
  then show ?case by (simp add: callbackKeeps_def keptD(1) [OF assms])
next
  case (Suc depth)
  show ?case
    unfolding callbackKeeps_def
  proof (intro allI)
    fix cb s
    show "R s (snd (invoke prog (Suc depth) cb s))"
    proof (cases cb)
      case NotFunction
      then show ?thesis by (simp add: keptD(1) [OF assms])
    next
      case (Function c)
      obtain cs b where body: "prog c s = Body cs b" by (cases "prog c s")
      have "R s (snd (runCalls (invoke prog depth) cs (s\<lparr>calls := calls s @ [c]\<rparr>)))"
        using keptD(2) [OF assms keptD(8) [OF assms] runCalls_kept [OF assms Suc]] .
      then have "R s (snd (andThen (runCalls (invoke prog depth) cs (s\<lparr>calls := calls s @ [c]\<rparr>))
            (\<lambda>s'. case b of Returns \<Rightarrow> (Return Undefined, s')
                    | Throws \<Rightarrow> (Throw (CallbackException c), s'))))"
        by (intro andThen_kept [OF assms])
          (simp_all add: keptD(1) [OF assms] split: behaviour.splits)
      with Function body show ?thesis by simp
    qed
  qed
qed

lemma perform_kept:
  assumes "kept R" and "callbackKeeps R callCb"
  shows "R s (snd (perform callCb e s))"
proof (cases e)
  case (Call c)
  then show ?thesis by (simp add: performCall_kept [OF assms])
next
  case (AnimationFrame now)
  show ?thesis
    using keptD(2) [OF assms(1) keptD(6) [OF assms(1)] updateVolume_kept [OF assms]]
    by (simp add: AnimationFrame keptD(1) [OF assms(1)])
qed

text \<open>The values assigned to the media volume are never taken back, and a media volume in
  [0,1] stays in [0,1].\<close>

lemma kept_assigned: "kept (\<lambda>s s'. prefix (assigned s) (assigned s'))"
  by (auto simp: kept_def assignVolume_def split: jsnum.splits)

lemma kept_mediaVolume:
  "kept (\<lambda>s s'. acceptedVolume (mediaVolume s) \<longrightarrow> acceptedVolume (mediaVolume s'))"
  by (auto simp: kept_def assignVolume_def split: jsnum.splits)

section \<open>The completing update step\<close>

text \<open>
  C1, amended. The fader is active, the end time of its fade record has been reached,
  the media element accepts the scaled end volume, and the record's callback is not a
  function, or is a function that returns without calling a method of the fader (the
  call stack having room for its call). Then \<open>updateVolume\<close> returns normally and leaves
  exactly this: the media volume is the volume scaler applied to the end volume itself,
  assigned once; the callback, when it is a function, has been invoked once (one new
  entry in \<open>calls\<close>); the fade record is cleared and the active flag is false. No
  animation frame is requested.
\<close>

theorem updateVolume_end_reached:
  assumes "active s" and "fade s = Some f" and "js_le (time_end f) (dateNow now)"
    and "acceptedVolume (volumeScaler s (volume_end f))"
    and "\<forall>c. callback f = Function c \<longrightarrow> 0 < depth \<and> (\<forall>s'. prog c s' = Body [] Returns)"
  shows "updateVolume (invoke prog depth) now s =
    (Return This,
     s\<lparr>mediaVolume := volumeScaler s (volume_end f),
       assigned := assigned s @ [volumeScaler s (volume_end f)],
       active := False, fade := None,
       calls := calls s @ (case callback f of NotFunction \<Rightarrow> [] | Function c \<Rightarrow> [c])\<rparr>)"
proof -
  have "\<not> js_lt (dateNow now) (time_end f)"
    using assms(3) by (rule js_le_imp_not_lt)
  with assms(1,2,4) have step: "updateVolume (invoke prog depth) now s =
      callBackAndClear (invoke prog depth) (callback f)
        (s\<lparr>mediaVolume := volumeScaler s (volume_end f),
           assigned := assigned s @ [volumeScaler s (volume_end f)], active := False\<rparr>)"
    by (simp add: updateVolume_def assignVolume_accepted)
  show ?thesis
  proof (cases "callback f")
    case NotFunction
    then show ?thesis by (simp add: step callBackAndClear_def)
  next
    case (Function c)
    with assms(5) have "0 < depth" and body: "prog c s' = Body [] Returns" for s'
      by simp_all
    then obtain d where d: "depth = Suc d"
      by (cases depth) simp_all
    from Function step body show ?thesis
      unfolding d by (simp add: callBackAndClear_def)
  qed
qed

theorem updateVolume_end_reached_witness:
  "updateVolume (invoke returningAtOnce 1) 500 (fadingOut (Function 4)) =
     (Return This, (fadingOut (Function 4))\<lparr>mediaVolume := Num 0, assigned := [Num 1, Num 0],
        active := False, fade := None, calls := [4]\<rparr>)"
  using updateVolume_end_reached [of "fadingOut (Function 4)"
    "\<lparr>volume_start = Num 1, volume_end = Num 0, time_start = Num 0,
       time_end = Num 500, callback = Function 4\<rparr>" 500 1 returningAtOnce]
  by (simp add: fadingOut_eq dateNow_def exponentialScaler_zero returningAtOnce_def)

text \<open>
  C1 as stated fails for a callback that returns after a call of \<open>fadeTo\<close>, as in
  \<open>fader.fadeOut(() => fader.fadeTo(1))\<close>: the step at the end time returns, the callback
  has been invoked once, and the active flag is true afterwards (the record that the
  callback put in place is the one that the step clears).
\<close>

lemma chained_step:
  "updateVolume (invoke chaining 2) 500 (fadingOut (Function 1)) =
    (Return This,
     \<lparr>mediaVolume = Num 0, volumeScaler = exponentialScaler, fadeDuration = Num 500,
      active = True, fade = None, frames = 2, calls = [1],
      assigned = [Num 1, Num 0, Num 0]\<rparr>)"
  by (simp add: fadingOut_eq updateVolume_def dateNow_def exponentialScaler_zero
      assignVolume_accepted callBackAndClear_def numeral_2_eq_2 chaining_def
      fadeTo_def validateVolumeLevel_def isNaN_def js_ge_def newFade_def start_def
      fadeLevel_def fadeProgress_def js_sub_def)

theorem updateVolume_end_reached_counterexample:
  "active (fadingOut (Function 1)) \<and>
   fade (fadingOut (Function 1)) =
     Some \<lparr>volume_start = Num 1, volume_end = Num 0, time_start = Num 0,
       time_end = Num 500, callback = Function 1\<rparr> \<and>
   js_le (Num 500) (dateNow 500) \<and>
   fst (updateVolume (invoke chaining 2) 500 (fadingOut (Function 1))) = Return This \<and>
   calls (snd (updateVolume (invoke chaining 2) 500 (fadingOut (Function 1)))) = [1] \<and>
   active (snd (updateVolume (invoke chaining 2) 500 (fadingOut (Function 1))))"
  unfolding chained_step by (simp add: fadingOut_eq dateNow_def)

text \<open>
  C2, amended. The fader is active, the end time of its fade record has been reached,
  the media element accepts the scaled end volume, and the record's callback is a
  function. Whenever the call of the callback ends with an exception, \<open>updateVolume\<close> ends
  with that exception in the state that the callback left: the statement that clears
  the record is skipped. When the callback throws without calling a method of the fader,
  that state has the media volume at the scaled end volume, the active flag false, the
  callback invoked once, and the completed record still in place.
\<close>

theorem updateVolume_callback_throws:
  assumes "active s" and "fade s = Some f" and "js_le (time_end f) (dateNow now)"
    and "acceptedVolume (volumeScaler s (volume_end f))"
    and "callback f = Function c"
  shows "(\<forall>e s'. invoke prog depth (Function c)
            (s\<lparr>mediaVolume := volumeScaler s (volume_end f),
               assigned := assigned s @ [volumeScaler s (volume_end f)],
               active := False\<rparr>) = (Throw e, s') \<longrightarrow>
          updateVolume (invoke prog depth) now s = (Throw e, s')) \<and>
    (0 < depth \<and> (\<forall>s'. prog c s' = Body [] Throws) \<longrightarrow>
       updateVolume (invoke prog depth) now s =
         (Throw (CallbackException c),
          s\<lparr>mediaVolume := volumeScaler s (volume_end f),
            assigned := assigned s @ [volumeScaler s (volume_end f)],
            active := False, calls := calls s @ [c]\<rparr>))"
proof -
  have "\<not> js_lt (dateNow now) (time_end f)"
    using assms(3) by (rule js_le_imp_not_lt)
  with assms(1,2,4,5) have step: "updateVolume (invoke prog depth) now s =
      andThen (invoke prog depth (Function c)
          (s\<lparr>mediaVolume := volumeScaler s (volume_end f),
             assigned := assigned s @ [volumeScaler s (volume_end f)], active := False\<rparr>))
        (\<lambda>s'. (Return This, s'\<lparr>fade := None\<rparr>))"
    by (simp add: updateVolume_def assignVolume_accepted callBackAndClear_def)
  show ?thesis
  proof (intro conjI allI impI)
    fix e s'
    assume "invoke prog depth (Function c)
        (s\<lparr>mediaVolume := volumeScaler s (volume_end f),
           assigned := assigned s @ [volumeScaler s (volume_end f)],
           active := False\<rparr>) = (Throw e, s')"
    then show "updateVolume (invoke prog depth) now s = (Throw e, s')"
      by (simp add: step)
  next
    assume a: "0 < depth \<and> (\<forall>s'. prog c s' = Body [] Throws)"
    then obtain d where "depth = Suc d" by (cases depth) simp_all
    with a show "updateVolume (invoke prog depth) now s =
         (Throw (CallbackException c),
          s\<lparr>mediaVolume := volumeScaler s (volume_end f),
            assigned := assigned s @ [volumeScaler s (volume_end f)],
            active := False, calls := calls s @ [c]\<rparr>)"
      unfolding step by simp
  qed
qed

theorem updateVolume_callback_throws_witness:
  "updateVolume (invoke throwingAtOnce 1) 620 (fadingOut (Function 3)) =
     (Throw (CallbackException 3),
      (fadingOut (Function 3))\<lparr>mediaVolume := Num 0, assigned := [Num 1, Num 0],
         active := False, calls := [3]\<rparr>)"
  using updateVolume_callback_throws [of "fadingOut (Function 3)"
    "\<lparr>volume_start = Num 1, volume_end = Num 0, time_start = Num 0,
       time_end = Num 500, callback = Function 3\<rparr>" 620 3 throwingAtOnce 1]
  by (simp add: fadingOut_eq dateNow_def exponentialScaler_zero throwingAtOnce_def)

text \<open>
  C2 as stated fails: the exception propagates, and the record is not cleared.
\<close>

theorem throwing_callback_counterexample:
  "fst (updateVolume (invoke throwingAtOnce 1) 620 (fadingOut (Function 3))) =
     Throw (CallbackException 3) \<and>
   \<not> (fade (snd (updateVolume (invoke throwingAtOnce 1) 620 (fadingOut (Function 3)))) = None \<and>
      active (snd (updateVolume (invoke throwingAtOnce 1) 620 (fadingOut (Function 3)))) = False)"
  by (simp add: fadingOut_eq updateVolume_def callBackAndClear_def dateNow_def
      exponentialScaler_zero assignVolume_accepted throwingAtOnce_def)

section \<open>Which callbacks can be invoked\<close>

lemma fadeIds_simps [simp]:
  "fadeIds (s\<lparr>active := x\<rparr>) = fadeIds s"
  "fadeIds (s\<lparr>frames := n\<rparr>) = fadeIds s"
  "fadeIds (s\<lparr>fadeDuration := d\<rparr>) = fadeIds s"
  "fadeIds (s\<lparr>mediaVolume := m\<rparr>) = fadeIds s"
  "fadeIds (s\<lparr>calls := l\<rparr>) = fadeIds s"
  "fadeIds (s\<lparr>assigned := vs\<rparr>) = fadeIds s"
  "fadeIds (s\<lparr>fade := Some f\<rparr>) = callbackIds (callback f)"
  "fadeIds (s\<lparr>fade := None\<rparr>) = {}"
  by (simp_all add: fadeIds_def)

lemma callbackIds_iff [simp]: "(c \<in> callbackIds cb) = (cb = Function c)"
  by (cases cb) auto

lemma untouched_refl: "c \<notin> fadeIds s \<Longrightarrow> untouched c s s"
  by (simp add: untouched_def)

lemma untouched_trans: "untouched c s t \<Longrightarrow> untouched c t u \<Longrightarrow> untouched c s u"
  by (simp add: untouched_def)

lemma untouchedD: "untouched c s t \<Longrightarrow> c \<notin> fadeIds t"
  by (simp add: untouched_def)

lemma assignVolume_untouched:
  "c \<notin> fadeIds s \<Longrightarrow> untouched c s (snd (assignVolume v s))"
  by (auto simp: untouched_def assignVolume_def split: jsnum.splits)

lemma andThen_untouched:
  assumes "untouched c s (snd res)"
    and "\<And>s'. c \<notin> fadeIds s' \<Longrightarrow> untouched c s' (snd (k s'))"
  shows "untouched c s (snd (andThen res k))"
proof (cases "fst res")
  case (Return r)
  then have "snd (andThen res k) = snd (k (snd res))"
    by (simp add: andThen_def)
  with assms show ?thesis
    using untouched_trans [of c s "snd res" "snd (k (snd res))"] untouchedD [OF assms(1)]
    by simp
next
  case (Throw e)
  then have "andThen res k = res" by (simp add: andThen_def)
  with assms(1) show ?thesis by simp
qed

lemma callBackAndClear_untouched:
  assumes "spares c callCb" and "cb \<noteq> Function c" and "c \<notin> fadeIds s"
  shows "untouched c s (snd (callBackAndClear callCb cb s))"
proof (cases cb)
  case NotFunction
  then show ?thesis by (simp add: callBackAndClear_def untouched_def)
next
  case (Function c')
  have "untouched c s (snd (callCb cb s))"
    using assms by (simp add: spares_def)
  then have "untouched c s (snd (andThen (callCb cb s) (\<lambda>s'. (Return This, s'\<lparr>fade := None\<rparr>))))"
    by (rule andThen_untouched) (simp add: untouched_def)
  with Function show ?thesis by (simp add: callBackAndClear_def)
qed

lemma updateVolume_untouched:
  assumes "spares c callCb" and "c \<notin> fadeIds s"
  shows "untouched c s (snd (updateVolume callCb now s))"
proof (cases "active s \<and> fade s \<noteq> None")
  case False
  then have "updateVolume callCb now s = (Return This, s)"
    by (auto simp: updateVolume_def split: bool.splits option.splits)
  with assms(2) show ?thesis by (simp add: untouched_refl)
next
  case True
  then obtain f where f: "fade s = Some f" and a: "active s" by auto
  with assms(2) have cb: "callback f \<noteq> Function c" by (simp add: fadeIds_def)
  show ?thesis
  proof (cases "js_lt (dateNow now) (time_end f)")
    case True
    have "untouched c s (snd (andThen (assignVolume (volumeScaler s (fadeLevel f now)) s)
              (\<lambda>s'. (Return This, s'\<lparr>frames := Suc (frames s')\<rparr>))))"
      using assms(2)
      by (intro andThen_untouched assignVolume_untouched) (simp_all add: untouched_def)
    with True f a show ?thesis by (simp add: updateVolume_def)
  next
    case False
    have "untouched c s' (snd (callBackAndClear callCb (callback f) (s'\<lparr>active := False\<rparr>)))"
      if "c \<notin> fadeIds s'" for s'
      using callBackAndClear_untouched [OF assms(1) cb, of "s'\<lparr>active := False\<rparr>"] that
      by (simp add: untouched_def)
    then have "untouched c s (snd (andThen (assignVolume (volumeScaler s (volume_end f)) s)
              (\<lambda>s'. callBackAndClear callCb (callback f) (s'\<lparr>active := False\<rparr>))))"
      using assms(2) by (intro andThen_untouched assignVolume_untouched)
    with False f a show ?thesis by (simp add: updateVolume_def)
  qed
qed

lemma start_untouched:
  assumes "spares c callCb" and "c \<notin> fadeIds s"
  shows "untouched c s (snd (start callCb now s))"
  using updateVolume_untouched [OF assms(1), of "s\<lparr>active := True\<rparr>" now] assms(2)
  by (simp add: start_def untouched_def)

text \<open>A call of \<open>fadeTo\<close> that passes the validation puts its own record in the place of
  the one before, whatever that one's callback was.\<close>

lemma fadeTo_supersedes:
  assumes "spares c callCb" and "validateVolumeLevel v = None" and "cb \<noteq> Function c"
  shows "untouched c s (snd (fadeTo callCb t1 t2 t3 v cb s))"
  using start_untouched [OF assms(1), of "s\<lparr>fade := Some (newFade t1 t2 v cb s)\<rparr>" t3] assms(2,3)
  by (simp add: fadeTo_def newFade_def untouched_def)

lemma fadeTo_untouched:
  assumes "spares c callCb" and "cb \<noteq> Function c" and "c \<notin> fadeIds s"
  shows "untouched c s (snd (fadeTo callCb t1 t2 t3 v cb s))"
proof (cases "validateVolumeLevel v")
  case None
  then show ?thesis by (rule fadeTo_supersedes [OF assms(1) _ assms(2)])
next
  case (Some e)
  with assms(3) show ?thesis by (simp add: fadeTo_def untouched_refl)
qed

lemma performCall_untouched:
  assumes "spares c callCb" and "c \<notin> callIds call" and "c \<notin> fadeIds s"
  shows "untouched c s (snd (performCall callCb call s))"
proof (cases call)
  case (Start now)
  with assms show ?thesis by (simp add: start_untouched)
next
  case Stop
  with assms show ?thesis by (simp add: stop_def untouched_def)
next
  case (SetFadeDuration d)
  with assms show ?thesis by (simp add: setFadeDuration_def untouched_def)
next
  case (UpdateVolume now)
  with assms show ?thesis by (simp add: updateVolume_untouched)
next
  case (FadeTo t1 t2 t3 v cb)
  with assms show ?thesis by (simp add: fadeTo_untouched)
next
  case (FadeIn t1 t2 t3 cb)
  with assms show ?thesis by (simp add: fadeIn_def fadeTo_untouched)
next
  case (FadeOut t1 t2 t3 cb)
  with assms show ?thesis by (simp add: fadeOut_def fadeTo_untouched)
qed

lemma runCalls_untouched:
  assumes "spares c callCb" and "\<forall>call \<in> set cs. c \<notin> callIds call" and "c \<notin> fadeIds s"
  shows "untouched c s (snd (runCalls callCb cs s))"
  using assms(2,3)
proof (induction cs arbitrary: s)
  case Nil
  then show ?case by (simp add: untouched_refl)
next
  case (Cons call cs)
  have "untouched c s (snd (performCall callCb call s))"
    using Cons.prems by (intro performCall_untouched [OF assms(1)]) simp_all
  then have "untouched c s (snd (andThen (performCall callCb call s) (runCalls callCb cs)))"
    using Cons by (intro andThen_untouched) simp_all
  then show ?case by simp
qed

lemma invoke_spares:
  assumes "\<forall>i s. c \<notin> bodyIds (prog i s)"
  shows "spares c (invoke prog depth)"
proof (induction depth)
  case 0
  then show ?case by (simp add: spares_def untouched_refl)
next
  case (Suc depth)
  show ?case
    unfolding spares_def
  proof (intro allI impI)
    fix cb s
    assume a: "cb \<noteq> Function c \<and> c \<notin> fadeIds s"
    show "untouched c s (snd (invoke prog (Suc depth) cb s))"
    proof (cases cb)
      case NotFunction
      with a show ?thesis by (simp add: untouched_refl)
    next
      case (Function c')
      with a have ne: "c' \<noteq> c" by auto
      obtain cs b where body: "prog c' s = Body cs b" by (cases "prog c' s")
      with assms have ids: "\<forall>call \<in> set cs. c \<notin> callIds call"
        by (metis UN_I bodyIds.simps)
      have "untouched c (s\<lparr>calls := calls s @ [c']\<rparr>)
          (snd (runCalls (invoke prog depth) cs (s\<lparr>calls := calls s @ [c']\<rparr>)))"
        using a by (intro runCalls_untouched [OF Suc ids]) simp
      then have "untouched c s (snd (runCalls (invoke prog depth) cs (s\<lparr>calls := calls s @ [c']\<rparr>)))"
        using ne by (simp add: untouched_def)
      then have "untouched c s
          (snd (andThen (runCalls (invoke prog depth) cs (s\<lparr>calls := calls s @ [c']\<rparr>))
            (\<lambda>s'. case b of Returns \<Rightarrow> (Return Undefined, s')
                    | Throws \<Rightarrow> (Throw (CallbackException c'), s'))))"
        by (rule andThen_untouched) (simp add: untouched_refl split: behaviour.splits)
      with Function body show ?thesis by simp
    qed
  qed
qed

lemma perform_untouched:
  assumes "spares c callCb" and "c \<notin> eventIds e" and "c \<notin> fadeIds s"
  shows "untouched c s (snd (perform callCb e s))"
proof (cases e)
  case (Call call)
  with assms show ?thesis by (simp add: performCall_untouched)
next
  case (AnimationFrame now)
  show ?thesis
    using updateVolume_untouched [OF assms(1), of "s\<lparr>frames := frames s - 1\<rparr>" now] assms(3)
    by (simp add: AnimationFrame untouched_def)
qed

lemma run_untouched:
  assumes "spares c callCb" and "\<forall>e \<in> set es. c \<notin> eventIds e" and "c \<notin> fadeIds s"
  shows "untouched c s (run callCb es s)"
  using assms(2,3)
proof (induction es arbitrary: s)
  case Nil
  then show ?case by (simp add: untouched_refl)
next
  case (Cons e es)
  have step: "untouched c s (snd (perform callCb e s))"
    using Cons.prems by (intro perform_untouched [OF assms(1)]) simp_all
  then have "untouched c (snd (perform callCb e s)) (run callCb es (snd (perform callCb e s)))"
    using Cons by (intro Cons.IH) (simp_all add: untouchedD)
  with step show ?case by (simp add: untouched_trans)
qed

lemma fadeTo_time_left:
  assumes "validateVolumeLevel v = None"
    and "js_lt (dateNow t3) (js_add (dateNow t2) (fadeDuration s))"
  shows "fade (snd (fadeTo callCb t1 t2 t3 v cb s)) = Some (newFade t1 t2 v cb s)"
    and "assigned (snd (fadeTo callCb t1 t2 t3 v cb s)) =
           assigned s @ [volumeScaler s (fadeLevel (newFade t1 t2 v cb s) t3)]"
    and "acceptedVolume (volumeScaler s (fadeLevel (newFade t1 t2 v cb s) t3)) \<Longrightarrow>
         mediaVolume (snd (fadeTo callCb t1 t2 t3 v cb s)) =
           volumeScaler s (fadeLevel (newFade t1 t2 v cb s) t3)"
proof -
  let ?f = "newFade t1 t2 v cb s"
  have te: "time_end ?f = js_add (dateNow t2) (fadeDuration s)"
    by (simp add: newFade_def)
  have step: "snd (fadeTo callCb t1 t2 t3 v cb s) =
      snd (andThen (assignVolume (volumeScaler s (fadeLevel ?f t3))
             (s\<lparr>fade := Some ?f, active := True\<rparr>))
           (\<lambda>s'. (Return This, s'\<lparr>frames := Suc (frames s')\<rparr>)))"
    using assms te by (simp add: fadeTo_def start_def updateVolume_def)
  show "fade (snd (fadeTo callCb t1 t2 t3 v cb s)) = Some ?f"
    unfolding step
    by (cases "volumeScaler s (fadeLevel ?f t3)" "s\<lparr>fade := Some ?f, active := True\<rparr>"
        rule: assignVolume_cases) simp_all
  show "assigned (snd (fadeTo callCb t1 t2 t3 v cb s)) =
      assigned s @ [volumeScaler s (fadeLevel ?f t3)]"
    unfolding step
    by (cases "volumeScaler s (fadeLevel ?f t3)" "s\<lparr>fade := Some ?f, active := True\<rparr>"
        rule: assignVolume_cases) simp_all
  show "mediaVolume (snd (fadeTo callCb t1 t2 t3 v cb s)) = volumeScaler s (fadeLevel ?f t3)"
    if "acceptedVolume (volumeScaler s (fadeLevel ?f t3))"
    unfolding step using that by (simp add: assignVolume_accepted)
qed

text \<open>
  C3. Let the fader hold a fade record whose callback is the function \<open>c\<close>, and let
  \<open>fadeTo\<close> be called with a valid target volume and another callback before that record
  completes. After the call the fader holds no record with \<open>c\<close>, and it holds the new
  record when time is left at the first update step. Whatever happens to the instance
  afterwards (method calls by the user and from inside completion callbacks, and
  animation frames, in any order, none of them passing \<open>c\<close> again), no further invocation
  of \<open>c\<close> is recorded: it has been invoked as often as before the call.
\<close>

theorem superseded_callback_never_invoked:
  assumes "fade s = Some r" and "callback r = Function c"
    and "validateVolumeLevel v = None"
    and "cb \<noteq> Function c" and "\<forall>e \<in> set es. c \<notin> eventIds e"
    and "\<forall>i s'. c \<notin> bodyIds (prog i s')"
  shows "c \<notin> fadeIds (snd (fadeTo (invoke prog depth) t1 t2 t3 v cb s)) \<and>
         (js_lt (dateNow t3) (js_add (dateNow t2) (fadeDuration s)) \<longrightarrow>
            fade (snd (fadeTo (invoke prog depth) t1 t2 t3 v cb s)) =
              Some (newFade t1 t2 v cb s)) \<and>
         count_list (calls (run (invoke prog depth) es
             (snd (fadeTo (invoke prog depth) t1 t2 t3 v cb s)))) c
           = count_list (calls s) c"
proof -
  have sp: "spares c (invoke prog depth)"
    using assms(6) by (rule invoke_spares)
  have first: "untouched c s (snd (fadeTo (invoke prog depth) t1 t2 t3 v cb s))"
    using sp assms(3,4) by (rule fadeTo_supersedes)
  then have "untouched c (snd (fadeTo (invoke prog depth) t1 t2 t3 v cb s))
      (run (invoke prog depth) es (snd (fadeTo (invoke prog depth) t1 t2 t3 v cb s)))"
    using sp assms(5) by (intro run_untouched) (simp_all add: untouchedD)
  with first show ?thesis
    using fadeTo_time_left(1) [OF assms(3)] by (simp add: untouched_def)
qed

theorem superseded_callback_never_invoked_witness:
  "1 \<notin> fadeIds (snd (fadeTo (invoke chaining 2) 50 50 50 (Num (4 / 5)) (Function 2)
      (fadingOut (Function 1)))) \<and>
   fade (snd (fadeTo (invoke chaining 2) 50 50 50 (Num (4 / 5)) (Function 2)
      (fadingOut (Function 1)))) =
     Some (newFade 50 50 (Num (4 / 5)) (Function 2) (fadingOut (Function 1))) \<and>
   count_list (calls (run (invoke chaining 2)
      [AnimationFrame 100, Call Stop, Call (Start 300), AnimationFrame 700, AnimationFrame 800]
      (snd (fadeTo (invoke chaining 2) 50 50 50 (Num (4 / 5)) (Function 2)
         (fadingOut (Function 1)))))) 1
   = count_list (calls (fadingOut (Function 1))) 1"
proof -
  have left: "js_lt (dateNow 50) (js_add (dateNow 50) (fadeDuration (fadingOut (Function 1))))"
    by (simp add: fadingOut_eq dateNow_def)
  have "1 \<notin> fadeIds (snd (fadeTo (invoke chaining 2) 50 50 50 (Num (4 / 5)) (Function 2)
      (fadingOut (Function 1)))) \<and>
    (js_lt (dateNow 50) (js_add (dateNow 50) (fadeDuration (fadingOut (Function 1)))) \<longrightarrow>
     fade (snd (fadeTo (invoke chaining 2) 50 50 50 (Num (4 / 5)) (Function 2)
        (fadingOut (Function 1)))) =
       Some (newFade 50 50 (Num (4 / 5)) (Function 2) (fadingOut (Function 1)))) \<and>
    count_list (calls (run (invoke chaining 2)
      [AnimationFrame 100, Call Stop, Call (Start 300), AnimationFrame 700, AnimationFrame 800]
      (snd (fadeTo (invoke chaining 2) 50 50 50 (Num (4 / 5)) (Function 2)
         (fadingOut (Function 1)))))) 1
    = count_list (calls (fadingOut (Function 1))) 1"
    by (rule superseded_callback_never_invoked [where
          r = "\<lparr>volume_start = Num 1, volume_end = Num 0, time_start = Num 0,
            time_end = Num 500, callback = Function 1\<rparr>"])
      (simp_all add: fadingOut_eq validateVolumeLevel_def isNaN_def js_ge_def chaining_def)
  with left show ?thesis by blast
qed

section \<open>The value that an update step assigns\<close>

lemma stepLevel_finite:
  assumes "volume_start f = Num a" and "volume_end f = Num b"
    and "time_start f = Num ts" and "time_end f = Num te" and "ts < te"
  shows "stepLevel f now =
    Num (if real_of_int now < te then (real_of_int now - ts) / (te - ts) * (b - a) + a else b)"
  using assms
  by (simp add: stepLevel_def fadeLevel_def fadeProgress_def dateNow_def js_sub_def)

lemma stepLevel_unending:
  assumes "volume_start f = Num a" and "volume_end f = Num b"
    and "time_start f = Num ts" and "time_end f = PosInf"
  shows "stepLevel f now = Num a"
  using assms
  by (simp add: stepLevel_def fadeLevel_def fadeProgress_def dateNow_def js_sub_def)

lemma stepLevel_at_end:
  assumes "\<not> js_lt (dateNow now) (time_end f)"
  shows "stepLevel f now = volume_end f"
  using assms by (simp add: stepLevel_def)

lemma interpolation_bounds:
  fixes p a b :: real
  assumes "0 \<le> p" and "p \<le> 1" and "0 \<le> a" and "a \<le> 1" and "0 \<le> b" and "b \<le> 1"
  shows "0 \<le> p * (b - a) + a" and "p * (b - a) + a \<le> 1"
proof -
  have eq: "p * (b - a) + a = (1 - p) * a + p * b" by (simp add: algebra_simps)
  have "0 \<le> (1 - p) * a" and "0 \<le> p * b" using assms by simp_all
  then show "0 \<le> p * (b - a) + a" unfolding eq by linarith
  have "(1 - p) * a \<le> (1 - p) * 1" and "p * b \<le> p * 1"
    using assms by (intro mult_left_mono; simp)+
  then have "(1 - p) * a + p * b \<le> (1 - p) + p" by simp
  then show "p * (b - a) + a \<le> 1" unfolding eq by linarith
qed

lemma interpolation_mono:
  fixes p q a b :: real
  assumes "p \<le> q"
  shows "a \<le> b \<Longrightarrow> p * (b - a) + a \<le> q * (b - a) + a"
    and "b \<le> a \<Longrightarrow> q * (b - a) + a \<le> p * (b - a) + a"
  using assms by (simp_all add: mult_right_mono mult_right_mono_neg)

lemma stepLevel_unit:
  assumes "js_le (Num 0) (volume_start f)" and "js_le (volume_start f) (Num 1)"
    and "js_le (Num 0) (volume_end f)" and "js_le (volume_end f) (Num 1)"
    and "time_start f = dateNow t0" and "js_lt (time_start f) (time_end f)"
    and "t0 \<le> now"
  shows "\<exists>l. stepLevel f now = Num l \<and> 0 \<le> l \<and> l \<le> 1"
proof -
  from assms(1,2) obtain a where a: "volume_start f = Num a" "0 \<le> a" "a \<le> 1"
    by (rule js_unit_interval)
  from assms(3,4) obtain b where b: "volume_end f = Num b" "0 \<le> b" "b \<le> 1"
    by (rule js_unit_interval)
  have ts: "time_start f = Num (real_of_int t0)"
    using assms(5) by (simp add: dateNow_def)
  show ?thesis
  proof (cases "time_end f")
    case (Num te)
    with assms(6) ts have lt: "real_of_int t0 < te" by simp
    show ?thesis
    proof (cases "real_of_int now < te")
      case True
      define p where "p = (real_of_int now - real_of_int t0) / (te - real_of_int t0)"
      have "0 \<le> p" and "p \<le> 1"
        using lt True assms(7) by (simp_all add: p_def)
      then have "0 \<le> p * (b - a) + a \<and> p * (b - a) + a \<le> 1"
        using a b interpolation_bounds [of p a b] by simp
      moreover have "stepLevel f now = Num (p * (b - a) + a)"
        using stepLevel_finite [OF a(1) b(1) ts Num lt, of now] True by (simp add: p_def)
      ultimately show ?thesis by simp
    next
      case False
      then have "stepLevel f now = Num b"
        using stepLevel_finite [OF a(1) b(1) ts Num lt, of now] by simp
      with b show ?thesis by simp
    qed
  next
    case PosInf
    then have "stepLevel f now = Num a"
      using stepLevel_unending [OF a(1) b(1) ts] by simp
    with a show ?thesis by simp
  next
    case NaN
    with assms(6) ts show ?thesis by simp
  next
    case NegInf
    with assms(6) ts show ?thesis by simp
  qed
qed

lemma stepLevel_order:
  assumes "volume_start f = Num a" and "volume_end f = Num b"
    and "time_start f = dateNow t0" and "t0 \<le> t1" and "t1 \<le> t2"
    and "js_le (dateNow t2) (time_end f)"
  shows "\<exists>l1 l2. stepLevel f t1 = Num l1 \<and> stepLevel f t2 = Num l2 \<and>
           (a \<le> b \<longrightarrow> l1 \<le> l2) \<and> (b \<le> a \<longrightarrow> l2 \<le> l1)"
proof -
  have ts: "time_start f = Num (real_of_int t0)"
    using assms(3) by (simp add: dateNow_def)
  show ?thesis
  proof (cases "time_end f")
    case (Num te)
    show ?thesis
    proof (cases "real_of_int t0 < te")
      case True
      define p where "p t = (real_of_int t - real_of_int t0) / (te - real_of_int t0)" for t
      have level: "stepLevel f t = Num (if real_of_int t < te then p t * (b - a) + a else b)" for t
        using stepLevel_finite [OF assms(1,2) ts Num True] by (simp add: p_def)
      have p12: "p t1 \<le> p t2"
        using True assms(5) by (simp add: p_def divide_right_mono)
      have p1: "p t \<le> 1" if "real_of_int t \<le> te" for t
        using True that by (simp add: p_def)
      show ?thesis
      proof (cases "real_of_int t2 < te")
        case True
        then have "real_of_int t1 < te" using assms(5) by simp
        with True show ?thesis
          using interpolation_mono [OF p12, where a = a and b = b] by (simp add: level)
      next
        case False
        show ?thesis
        proof (cases "real_of_int t1 < te")
          case True
          have "p t1 \<le> 1" using True by (intro p1) simp
          then have "a \<le> b \<Longrightarrow> p t1 * (b - a) + a \<le> b" and "b \<le> a \<Longrightarrow> b \<le> p t1 * (b - a) + a"
            using interpolation_mono [where p = "p t1" and q = 1 and a = a and b = b]
            by simp_all
          with True False show ?thesis by (simp add: level)
        next
          case False
          with \<open>\<not> real_of_int t2 < te\<close> show ?thesis by (simp add: level)
        qed
      qed
    next
      case False
      then have "\<not> js_lt (dateNow t) (time_end f)" if "t0 \<le> t" for t
        using that Num by (simp add: dateNow_def)
      then have "stepLevel f t1 = Num b" and "stepLevel f t2 = Num b"
        using assms(2,4,5) by (simp_all add: stepLevel_at_end)
      then show ?thesis by simp
    qed
  next
    case PosInf
    then have "stepLevel f t1 = Num a" and "stepLevel f t2 = Num a"
      using stepLevel_unending [OF assms(1,2) ts] by simp_all
    then show ?thesis by simp
  next
    case NaN
    with assms(6) show ?thesis by simp
  next
    case NegInf
    with assms(6) show ?thesis by (simp add: js_le_def dateNow_def)
  qed
qed

lemma updateVolume_assigns:
  assumes "active s" and "fade s = Some f"
  shows "prefix (assigned s @ [volumeScaler s (stepLevel f now)])
           (assigned (snd (updateVolume (invoke prog depth) now s)))"
proof (cases "js_lt (dateNow now) (time_end f)")
  case True
  with assms show ?thesis
    by (cases "volumeScaler s (fadeLevel f now)" s rule: assignVolume_cases)
      (simp_all add: updateVolume_def stepLevel_def)
next
  case False
  show ?thesis
  proof (cases "volumeScaler s (volume_end f)" s rule: assignVolume_cases)
    case accepted
    have "prefix (assigned s') (assigned (snd (callBackAndClear (invoke prog depth) cb s')))"
      for s' cb
      by (rule callBackAndClear_kept [OF kept_assigned invoke_kept [OF kept_assigned]])
    from this [of "s\<lparr>mediaVolume := volumeScaler s (volume_end f),
        assigned := assigned s @ [volumeScaler s (volume_end f)], active := False\<rparr>" "callback f"]
    show ?thesis
      using accepted False assms by (simp add: updateVolume_def stepLevel_def)
  next
    case (rejected e)
    with False assms show ?thesis by (simp add: updateVolume_def stepLevel_def)
  qed
qed

lemma updateVolume_stores:
  assumes "active s" and "fade s = Some f"
    and "acceptedVolume (volumeScaler s (stepLevel f now))"
  shows "acceptedVolume (mediaVolume (snd (updateVolume (invoke prog depth) now s)))"
    and "js_lt (dateNow now) (time_end f) \<Longrightarrow>
         mediaVolume (snd (updateVolume (invoke prog depth) now s)) =
           volumeScaler s (stepLevel f now)"
proof -
  show "mediaVolume (snd (updateVolume (invoke prog depth) now s)) =
      volumeScaler s (stepLevel f now)" if "js_lt (dateNow now) (time_end f)"
    using that assms by (simp add: updateVolume_def stepLevel_def assignVolume_accepted)
  show "acceptedVolume (mediaVolume (snd (updateVolume (invoke prog depth) now s)))"
  proof (cases "js_lt (dateNow now) (time_end f)")
    case True
    with assms show ?thesis
      by (simp add: updateVolume_def stepLevel_def assignVolume_accepted)
  next
    case False
    have "acceptedVolume (mediaVolume s') \<longrightarrow>
        acceptedVolume (mediaVolume (snd (callBackAndClear (invoke prog depth) cb s')))"
      for s' cb
      by (rule callBackAndClear_kept [OF kept_mediaVolume invoke_kept [OF kept_mediaVolume]])
    from this [of "s\<lparr>mediaVolume := volumeScaler s (volume_end f),
        assigned := assigned s @ [volumeScaler s (volume_end f)], active := False\<rparr>" "callback f"]
    show ?thesis
      using False assms by (simp add: updateVolume_def stepLevel_def assignVolume_accepted)
  qed
qed

text \<open>
  C4, amended. Take an update step on an active fader with the default exponential scaler
  whose fade record has start and end volumes in [0,1], a start time that is a reading
  of the clock, and a later end time. When the reading of the clock in the step is not
  earlier than the start time, the value that the step assigns to the media volume is
  the scaled fade level of that reading and lies in [0,1], so that the media element
  accepts it, and the media volume lies in [0,1] after the step.
\<close>

theorem updateVolume_writes_unit_interval:
  assumes "active s" and "fade s = Some f" and "volumeScaler s = exponentialScaler"
    and "js_le (Num 0) (volume_start f)" and "js_le (volume_start f) (Num 1)"
    and "js_le (Num 0) (volume_end f)" and "js_le (volume_end f) (Num 1)"
    and "time_start f = dateNow t0" and "js_lt (time_start f) (time_end f)"
    and "t0 \<le> now"
  shows "prefix (assigned s @ [exponentialScaler (stepLevel f now)])
           (assigned (snd (updateVolume (invoke prog depth) now s))) \<and>
         js_le (Num 0) (exponentialScaler (stepLevel f now)) \<and>
         js_le (exponentialScaler (stepLevel f now)) (Num 1) \<and>
         js_le (Num 0) (mediaVolume (snd (updateVolume (invoke prog depth) now s))) \<and>
         js_le (mediaVolume (snd (updateVolume (invoke prog depth) now s))) (Num 1)"
proof -
  obtain l where l: "stepLevel f now = Num l" "0 \<le> l" "l \<le> 1"
    using stepLevel_unit [OF assms(4-10)] by blast
  obtain y where y: "exponentialScaler (Num l) = Num y" "0 \<le> y" "y \<le> 1"
    using exponentialScaler_unit [OF l(2,3)] by blast
  then have acc: "acceptedVolume (volumeScaler s (stepLevel f now))"
    using assms(3) l(1) by simp
  show ?thesis
    using updateVolume_assigns [OF assms(1,2), of now prog depth]
      updateVolume_stores(1) [OF assms(1,2) acc, of prog depth] acc assms(3)
    by (simp add: acceptedVolume_iff)
qed

theorem updateVolume_writes_unit_interval_witness:
  "prefix (assigned (fadingOut NotFunction) @
        [exponentialScaler (stepLevel \<lparr>volume_start = Num 1, volume_end = Num 0,
           time_start = Num 0, time_end = Num 500, callback = NotFunction\<rparr> 250)])
     (assigned (snd (updateVolume (invoke returningAtOnce 1) 250 (fadingOut NotFunction)))) \<and>
   js_le (Num 0) (mediaVolume (snd (updateVolume (invoke returningAtOnce 1) 250 (fadingOut NotFunction)))) \<and>
   js_le (mediaVolume (snd (updateVolume (invoke returningAtOnce 1) 250 (fadingOut NotFunction)))) (Num 1)"
  using updateVolume_writes_unit_interval [of "fadingOut NotFunction"
    "\<lparr>volume_start = Num 1, volume_end = Num 0, time_start = Num 0,
       time_end = Num 500, callback = NotFunction\<rparr>" 0 250 returningAtOnce 1]
  by (simp add: fadingOut_eq dateNow_def)

text \<open>
  C4 as stated fails when the clock reads less in the update step than it did when the
  fade was created: the progress is negative, nothing bounds it from below, and a fade
  from 1 to 0 over [1000, 1500] stepped at 500 assigns \<open>10\<^sup>3\<close> to the media volume. The
  media element rejects the value: the step ends with \<open>IndexSizeError\<close>, the media volume
  stays at 1, and the fader stays active with its record and without a new animation
  frame.
\<close>

theorem updateVolume_range_counterexample:
  "active fadingOutLater \<and>
   volumeScaler fadingOutLater = exponentialScaler \<and>
   mediaVolume fadingOutLater = Num 1 \<and>
   fade fadingOutLater =
     Some \<lparr>volume_start = Num 1, volume_end = Num 0, time_start = Num 1000,
       time_end = Num 1500, callback = NotFunction\<rparr> \<and>
   updateVolume (invoke returningAtOnce 1) 500 fadingOutLater =
     (Throw IndexSizeError, fadingOutLater\<lparr>assigned := [Num 1, Num 1000]\<rparr>) \<and>
   \<not> js_le (Num 1000) (Num 1)"
  by (simp add: fadingOutLater_eq updateVolume_def dateNow_def fadeLevel_def
      fadeProgress_def js_sub_def exponentialScaler_def js_eq_def assignVolume_def)

text \<open>
  C5. Take a fade record from the start volume \<open>a\<close> to the end volume \<open>b\<close> whose start
  time is a reading of the clock, and a non-decreasing sequence of readings between its
  start time and its end time. An update step at any of them assigns to the media volume
  the volume scaler applied to the fade level of that reading (and while time is left
  that is the media volume after the step, when the media element accepts it), and the
  sequence of these fade levels is non-decreasing when \<open>a < b\<close> and non-increasing when
  \<open>a > b\<close>.
\<close>

theorem stepLevel_sequence_monotone:
  assumes "active s" and "fade s = Some f"
    and "volume_start f = Num a" and "volume_end f = Num b"
    and "time_start f = dateNow t0" and "sorted ts"
    and "\<forall>t \<in> set ts. t0 \<le> t \<and> js_le (dateNow t) (time_end f)"
  shows "(\<forall>t \<in> set ts.
            prefix (assigned s @ [volumeScaler s (stepLevel f t)])
              (assigned (snd (updateVolume (invoke prog depth) t s)))) \<and>
         (\<forall>t \<in> set ts.
            acceptedVolume (volumeScaler s (stepLevel f t)) \<and> js_lt (dateNow t) (time_end f) \<longrightarrow>
            mediaVolume (snd (updateVolume (invoke prog depth) t s)) =
              volumeScaler s (stepLevel f t)) \<and>
         (a < b \<longrightarrow> sorted_wrt js_le (map (stepLevel f) ts)) \<and>
         (b < a \<longrightarrow> sorted_wrt (\<lambda>x y. js_le y x) (map (stepLevel f) ts))"
proof -
  have pair: "(a < b \<longrightarrow> js_le (stepLevel f t1) (stepLevel f t2)) \<and>
              (b < a \<longrightarrow> js_le (stepLevel f t2) (stepLevel f t1))"
    if mem1: "t1 \<in> set ts" and mem2: "t2 \<in> set ts" and le: "t1 \<le> t2" for t1 t2
  proof -
    have "t0 \<le> t1" and "js_le (dateNow t2) (time_end f)"
      using assms(7) mem1 mem2 by simp_all
    then obtain l1 l2 where "stepLevel f t1 = Num l1" and "stepLevel f t2 = Num l2"
      and "a \<le> b \<longrightarrow> l1 \<le> l2" and "b \<le> a \<longrightarrow> l2 \<le> l1"
      using stepLevel_order [OF assms(3-5) _ le] by blast
    then show ?thesis by simp
  qed
  have up: "sorted_wrt (\<lambda>x y. js_le (stepLevel f x) (stepLevel f y)) ts" if "a < b"
    using assms(6) pair that
    by (auto simp: sorted_wrt_iff_nth_less intro!: nth_mem dest: sorted_nth_mono)
  have down: "sorted_wrt (\<lambda>x y. js_le (stepLevel f y) (stepLevel f x)) ts" if "b < a"
    using assms(6) pair that
    by (auto simp: sorted_wrt_iff_nth_less intro!: nth_mem dest: sorted_nth_mono)
  show ?thesis
    using up down updateVolume_assigns [OF assms(1,2)] updateVolume_stores(2) [OF assms(1,2)]
    by (simp add: sorted_wrt_map)
qed

theorem stepLevel_sequence_monotone_witness:
  "sorted_wrt (\<lambda>x y. js_le y x)
     (map (stepLevel \<lparr>volume_start = Num 1, volume_end = Num 0, time_start = Num 0,
       time_end = Num 500, callback = NotFunction\<rparr>) [0, 100, 400, 500])"
  using stepLevel_sequence_monotone [of "fadingOut NotFunction"
    "\<lparr>volume_start = Num 1, volume_end = Num 0, time_start = Num 0,
       time_end = Num 500, callback = NotFunction\<rparr>" 1 0 0 "[0, 100, 400, 500]"]
  by (simp add: fadingOut_eq dateNow_def)

section \<open>The active flag and the registered callbacks\<close>

lemma registered_trivial:
  "\<not> active s \<or> fade s = None \<or> 0 < frames s \<Longrightarrow> registeredWhileFading s"
  by (auto simp: registeredWhileFading_def)

lemma rejected_registered:
  "\<not> acceptedVolume v \<Longrightarrow> registeredWhileFading (s\<lparr>assigned := assigned s @ [v]\<rparr>)"
  by (simp add: registeredWhileFading_def)

lemma callBackAndClear_registered:
  assumes "callbackRegisters callCb" and "registeredWhileFading s"
  shows "registeredWhileFading (snd (callBackAndClear callCb cb s))"
proof (cases cb)
  case NotFunction
  then show ?thesis by (simp add: callBackAndClear_def registered_trivial)
next
  case (Function c)
  have after: "registeredWhileFading (snd (callCb cb s))"
    using assms by (simp add: callbackRegisters_def)
  show ?thesis
  proof (cases "fst (callCb cb s)")
    case (Return r)
    then show ?thesis
      by (simp add: callBackAndClear_def Function andThen_def registered_trivial)
  next
    case (Throw e)
    with after show ?thesis
      by (simp add: callBackAndClear_def Function andThen_def)
  qed
qed

lemma updateVolume_registered:
  assumes "callbackRegisters callCb"
  shows "registeredWhileFading (snd (updateVolume callCb now s))"
proof (cases "active s \<and> fade s \<noteq> None")
  case False
  then have "updateVolume callCb now s = (Return This, s)"
    by (auto simp: updateVolume_def split: bool.splits option.splits)
  with False show ?thesis by (auto simp: registered_trivial)
next
  case True
  then obtain f where f: "fade s = Some f" and a: "active s" by auto
  show ?thesis
  proof (cases "js_lt (dateNow now) (time_end f)")
    case True
    show ?thesis
    proof (cases "volumeScaler s (fadeLevel f now)" s rule: assignVolume_cases)
      case accepted
      with True f a show ?thesis by (simp add: updateVolume_def registered_trivial)
    next
      case (rejected e)
      with True f a show ?thesis by (simp add: updateVolume_def rejected_registered)
    qed
  next
    case False
    show ?thesis
    proof (cases "volumeScaler s (volume_end f)" s rule: assignVolume_cases)
      case accepted
      have "registeredWhileFading (snd (callBackAndClear callCb (callback f)
          (s\<lparr>mediaVolume := volumeScaler s (volume_end f),
             assigned := assigned s @ [volumeScaler s (volume_end f)], active := False\<rparr>)))"
        using assms by (rule callBackAndClear_registered) (simp add: registered_trivial)
      with accepted False f a show ?thesis by (simp add: updateVolume_def)
    next
      case (rejected e)
      with False f a show ?thesis by (simp add: updateVolume_def rejected_registered)
    qed
  qed
qed

lemma performCall_registered:
  assumes "callbackRegisters callCb" and "registeredWhileFading s"
  shows "registeredWhileFading (snd (performCall callCb c s))"
proof (cases c)
  case Stop
  then show ?thesis by (simp add: stop_def registered_trivial)
next
  case (SetFadeDuration d)
  with assms(2) show ?thesis by (simp add: setFadeDuration_def registeredWhileFading_def)
qed (simp_all add: start_def fadeTo_def fadeIn_def fadeOut_def
      updateVolume_registered [OF assms(1)] assms(2) split: option.splits)

lemma runCalls_registered:
  assumes "callbackRegisters callCb" and "registeredWhileFading s"
  shows "registeredWhileFading (snd (runCalls callCb cs s))"
  using assms(2)
proof (induction cs arbitrary: s)
  case Nil
  then show ?case by simp
next
  case (Cons c cs)
  have step: "registeredWhileFading (snd (performCall callCb c s))"
    using assms(1) Cons.prems by (rule performCall_registered)
  show ?case
  proof (cases "fst (performCall callCb c s)")
    case (Return r)
    with Cons.IH [OF step] show ?thesis by (simp add: andThen_def)
  next
    case (Throw e)
    with step show ?thesis by (simp add: andThen_def)
  qed
qed

lemma invoke_registers: "callbackRegisters (invoke prog depth)"
proof (induction depth)
  case 0
  then show ?case by (simp add: callbackRegisters_def)
next
  case (Suc depth)
  show ?case
    unfolding callbackRegisters_def
  proof (intro allI impI)
    fix cb s
    assume inv: "registeredWhileFading s"
    show "registeredWhileFading (snd (invoke prog (Suc depth) cb s))"
    proof (cases cb)
      case NotFunction
      with inv show ?thesis by simp
    next
      case (Function c)
      obtain cs b where body: "prog c s = Body cs b" by (cases "prog c s")
      have "registeredWhileFading (s\<lparr>calls := calls s @ [c]\<rparr>)"
        using inv by (simp add: registeredWhileFading_def)
      then have "registeredWhileFading
          (snd (runCalls (invoke prog depth) cs (s\<lparr>calls := calls s @ [c]\<rparr>)))"
        by (rule runCalls_registered [OF Suc])
      then show ?thesis
        by (simp add: Function body andThen_def split: completion.splits behaviour.splits)
    qed
  qed
qed

lemma perform_registered:
  assumes "callbackRegisters callCb" and "registeredWhileFading s"
  shows "registeredWhileFading (snd (perform callCb e s))"
proof (cases e)
  case (Call c)
  with assms show ?thesis by (simp add: performCall_registered)
next
  case (AnimationFrame now)
  with assms show ?thesis by (simp add: updateVolume_registered)
qed

lemma construct_idle:
  assumes "construct media opts = Inr s"
  shows "\<not> active s"
  using assms
  by (auto simp: construct_def withInitialVolume_def withFadeDuration_def instance0_def
      setFadeDuration_def assignVolume_def
      split: media_arg.splits scaler_option.splits option.splits sum.splits if_splits
        completion.splits prod.splits jsnum.splits)

lemma reachable_newFader: "reachable prog newFader"
  using newFader_constructed by (rule reachable.constructed)

lemma reachable_run: "reachable prog s \<Longrightarrow> reachable prog (run (invoke prog depth) es s)"
  by (induction es arbitrary: s) (simp_all add: reachable.performed)

lemma reachable_fadingOut: "reachable prog (fadingOut cb)"
  using reachable.performed [OF reachable_newFader, of prog 1 "Call (FadeTo 0 0 0 (Num 0) cb)"]
  by (simp add: fadingOut_def fadeTo_on_newFader)

text \<open>
  C6, amended. In every state that a constructed fader reaches through method calls (by
  its user and from inside completion callbacks) and animation frames, as long as the
  media element has accepted every volume assigned to it: if the active flag is true and
  a fade record is present, then an animation-frame callback is registered to fire.
\<close>

theorem active_fade_registered:
  assumes "reachable prog s" and "\<forall>v \<in> set (assigned s). acceptedVolume v"
    and "active s" and "fade s \<noteq> None"
  shows "0 < frames s"
proof -
  from assms(1) have "registeredWhileFading s"
  proof (induction rule: reachable.induct)
    case (constructed media opts s)
    then show ?case by (simp add: registered_trivial construct_idle)
  next
    case (performed s depth e)
    from invoke_registers performed.IH show ?case by (rule perform_registered)
  qed
  with assms(2-4) show ?thesis by (simp add: registeredWhileFading_def)
qed

theorem active_fade_registered_witness:
  "0 < frames (fadingOut NotFunction)"
  using active_fade_registered [OF reachable_fadingOut, of NotFunction]
  by (simp add: fadingOut_eq)

text \<open>
  C6 as stated fails in both of the cases it names: after \<open>start()\<close> on a new fader the
  flag is true and nothing is registered; after \<open>fadeTo(0)\<close> and then \<open>stop()\<close> the flag is
  false and the callback that \<open>fadeTo\<close> registered is still to fire.
\<close>

theorem active_iff_registered_counterexample:
  "reachable returningAtOnce (run (invoke returningAtOnce 1) [Call (Start 0)] newFader) \<and>
   active (run (invoke returningAtOnce 1) [Call (Start 0)] newFader) \<and>
   frames (run (invoke returningAtOnce 1) [Call (Start 0)] newFader) = 0 \<and>
   reachable returningAtOnce
     (run (invoke returningAtOnce 1) [Call (FadeTo 0 0 0 (Num 0) NotFunction), Call Stop] newFader) \<and>
   \<not> active
     (run (invoke returningAtOnce 1) [Call (FadeTo 0 0 0 (Num 0) NotFunction), Call Stop] newFader) \<and>
   frames
     (run (invoke returningAtOnce 1) [Call (FadeTo 0 0 0 (Num 0) NotFunction), Call Stop] newFader) = 1"
proof (intro conjI)
  show "reachable returningAtOnce (run (invoke returningAtOnce 1) [Call (Start 0)] newFader)"
    using reachable_newFader by (rule reachable_run)
  show "active (run (invoke returningAtOnce 1) [Call (Start 0)] newFader)"
    by (simp add: start_def updateVolume_def newFader_eq)
  show "frames (run (invoke returningAtOnce 1) [Call (Start 0)] newFader) = 0"
    by (simp add: start_def updateVolume_def newFader_eq)
  show "reachable returningAtOnce
     (run (invoke returningAtOnce 1) [Call (FadeTo 0 0 0 (Num 0) NotFunction), Call Stop] newFader)"
    using reachable_newFader by (rule reachable_run)
  show "\<not> active
     (run (invoke returningAtOnce 1) [Call (FadeTo 0 0 0 (Num 0) NotFunction), Call Stop] newFader)"
    by (simp add: stop_def)
  show "frames
     (run (invoke returningAtOnce 1) [Call (FadeTo 0 0 0 (Num 0) NotFunction), Call Stop] newFader) = 1"
    by (simp add: stop_def fadeTo_on_newFader)
qed

text \<open>Without the condition on the media element the implication fails too: when the
  clock reads 500 in the animation frame of a fade created at 1000, the assignment of
  \<open>10\<^sup>3\<close> throws before the next frame is requested.\<close>

lemma rejected_assignment_unregistered:
  "reachable returningAtOnce (run (invoke returningAtOnce 1)
      [Call (FadeTo 1000 1000 1000 (Num 0) NotFunction), AnimationFrame 500] newFader) \<and>
   active (run (invoke returningAtOnce 1)
      [Call (FadeTo 1000 1000 1000 (Num 0) NotFunction), AnimationFrame 500] newFader) \<and>
   fade (run (invoke returningAtOnce 1)
      [Call (FadeTo 1000 1000 1000 (Num 0) NotFunction), AnimationFrame 500] newFader) \<noteq> None \<and>
   frames (run (invoke returningAtOnce 1)
      [Call (FadeTo 1000 1000 1000 (Num 0) NotFunction), AnimationFrame 500] newFader) = 0 \<and>
   assigned (run (invoke returningAtOnce 1)
      [Call (FadeTo 1000 1000 1000 (Num 0) NotFunction), AnimationFrame 500] newFader) =
     [Num 1, Num 1000]"
proof -
  have "reachable returningAtOnce (run (invoke returningAtOnce 1)
      [Call (FadeTo 1000 1000 1000 (Num 0) NotFunction), AnimationFrame 500] newFader)"
    using reachable_newFader by (rule reachable_run)
  then show ?thesis
    by (simp add: fadeTo_on_newFader updateVolume_def dateNow_def fadeLevel_def
        fadeProgress_def js_sub_def exponentialScaler_def js_eq_def assignVolume_def)
qed

section \<open>Validation of the arguments\<close>

text \<open>
  C7. When the target volume is not a number in [0,1] (NaN and the infinities included),
  \<open>fadeTo\<close> throws the \<open>TypeError\<close> and leaves the whole state as it was: the fade record,
  the active flag, the media volume and everything else.
\<close>

theorem fadeTo_rejects_out_of_range:
  assumes "\<not> (\<exists>x. targetVolume = Num x \<and> 0 \<le> x \<and> x \<le> 1)"
  shows "fadeTo callCb t1 t2 t3 targetVolume cb s = (Throw TypeError, s)"
proof -
  have "validateVolumeLevel targetVolume \<noteq> None"
    using assms by (simp add: validateVolumeLevel_None)
  then have "validateVolumeLevel targetVolume = Some TypeError"
    by (simp add: validateVolumeLevel_def split: if_splits)
  then show ?thesis by (simp add: fadeTo_def)
qed

theorem fadeTo_rejects_out_of_range_witness:
  "fadeTo (invoke chaining 2) 100 100 100 (Num (3 / 2)) (Function 2) (fadingOut (Function 1)) =
     (Throw TypeError, fadingOut (Function 1)) \<and>
   fadeTo (invoke chaining 2) 100 100 100 (Num (- 1 / 10)) (Function 2) (fadingOut (Function 1)) =
     (Throw TypeError, fadingOut (Function 1)) \<and>
   fadeTo (invoke chaining 2) 100 100 100 NaN (Function 2) (fadingOut (Function 1)) =
     (Throw TypeError, fadingOut (Function 1))"
  using
    fadeTo_rejects_out_of_range [of "Num (3 / 2)" "invoke chaining 2" 100 100 100 "Function 2"
      "fadingOut (Function 1)"]
    fadeTo_rejects_out_of_range [of "Num (- 1 / 10)" "invoke chaining 2" 100 100 100 "Function 2"
      "fadingOut (Function 1)"]
    fadeTo_rejects_out_of_range [of NaN "invoke chaining 2" 100 100 100 "Function 2"
      "fadingOut (Function 1)"]
  by simp

text \<open>
  C8, amended. \<open>setFadeDuration(d)\<close> returns the instance and stores \<open>d\<close> exactly when \<open>d\<close>
  is a finite number greater than zero or positive infinity; for every other number it
  throws the \<open>TypeError\<close> and changes nothing. In both cases the fade record in flight and
  the media volume stay as they were.
\<close>

theorem setFadeDuration_accepts:
  "setFadeDuration d s =
     (if d = PosInf \<or> finitePositive d then (Return This, s\<lparr>fadeDuration := d\<rparr>)
      else (Throw TypeError, s)) \<and>
   fade (snd (setFadeDuration d s)) = fade s \<and>
   mediaVolume (snd (setFadeDuration d s)) = mediaVolume s"
  by (simp add: setFadeDuration_def js_gt_zero)

text \<open>
  C8 as stated fails for \<open>Infinity\<close>: it is not finite, and it is accepted and stored.
\<close>

theorem setFadeDuration_counterexample:
  "setFadeDuration PosInf (fadingOut NotFunction) =
     (Return This, (fadingOut NotFunction)\<lparr>fadeDuration := PosInf\<rparr>) \<and>
   \<not> finitePositive PosInf"
  by (simp add: setFadeDuration_def isNaN_def js_gt_def finitePositive_def)

section \<open>The convenience methods and the start volume\<close>

lemma fluent_methods:
  "fst (stop s) = Return This"
  "fst (setFadeDuration d s) \<noteq> Return Undefined"
  "fst (start callCb now s) \<noteq> Return Undefined"
  "fst (fadeTo callCb t1 t2 t3 v cb s) \<noteq> Return Undefined"
  by (auto simp: start_def stop_def setFadeDuration_def fadeTo_def returning_def andThen_def
      split: completion.splits option.splits)

lemma fadeIn_on_newFader:
  "fst (fadeTo callCb 0 0 0 (Num 1) NotFunction newFader) = Return This \<and>
   fst (fadeIn callCb 0 0 0 NotFunction newFader) = Return Undefined"
  by (simp add: fadeIn_def fadeTo_def start_def updateVolume_def newFader_eq
      validateVolumeLevel_def isNaN_def js_ge_def newFade_def dateNow_def
      fadeLevel_def fadeProgress_def js_sub_def exponentialScaler_one assignVolume_accepted)

text \<open>
  C9, what the code does. \<open>fadeIn(callback)\<close> and \<open>fadeOut(callback)\<close> leave the state that
  \<open>fadeTo(1, callback)\<close> and \<open>fadeTo(0, callback)\<close> leave and throw what they throw, but
  where \<open>fadeTo\<close> returns the instance they return \<open>undefined\<close>: neither ever returns the
  instance.
\<close>

theorem fadeIn_fadeOut_return_nothing:
  "snd (fadeIn callCb t1 t2 t3 cb s) = snd (fadeTo callCb t1 t2 t3 (Num 1) cb s) \<and>
   snd (fadeOut callCb t1 t2 t3 cb s) = snd (fadeTo callCb t1 t2 t3 (Num 0) cb s) \<and>
   fst (fadeIn callCb t1 t2 t3 cb s) =
     (case fst (fadeTo callCb t1 t2 t3 (Num 1) cb s) of
        Return r \<Rightarrow> Return Undefined | Throw e \<Rightarrow> Throw e) \<and>
   fst (fadeOut callCb t1 t2 t3 cb s) =
     (case fst (fadeTo callCb t1 t2 t3 (Num 0) cb s) of
        Return r \<Rightarrow> Return Undefined | Throw e \<Rightarrow> Throw e) \<and>
   fst (fadeIn callCb t1 t2 t3 cb s) \<noteq> Return This \<and>
   fst (fadeOut callCb t1 t2 t3 cb s) \<noteq> Return This"
  by (auto simp: fadeIn_def fadeOut_def returning_def andThen_def split: completion.splits)

text \<open>
  C10. A call of \<open>fadeTo\<close> with a valid target volume builds a record whose start volume
  is the media volume as read, with no use of the volume scaler, and hands the fader
  with that record to \<open>start\<close>. When time is left at the first update step, the record is
  in place after the call, the one value assigned to the media volume is the scaler
  applied to the level interpolated from that start volume, and it is the media volume
  after the call when the media element accepts it.
\<close>

theorem fadeTo_start_volume:
  assumes "validateVolumeLevel targetVolume = None"
  shows "volume_start (newFade t1 t2 targetVolume cb s) = mediaVolume s \<and>
    fadeTo callCb t1 t2 t3 targetVolume cb s =
      returning This (start callCb t3 (s\<lparr>fade := Some (newFade t1 t2 targetVolume cb s)\<rparr>)) \<and>
    (js_lt (dateNow t3) (js_add (dateNow t2) (fadeDuration s)) \<longrightarrow>
       fade (snd (fadeTo callCb t1 t2 t3 targetVolume cb s)) =
         Some (newFade t1 t2 targetVolume cb s) \<and>
       assigned (snd (fadeTo callCb t1 t2 t3 targetVolume cb s)) =
         assigned s @ [volumeScaler s (fadeLevel (newFade t1 t2 targetVolume cb s) t3)] \<and>
       (acceptedVolume (volumeScaler s (fadeLevel (newFade t1 t2 targetVolume cb s) t3)) \<longrightarrow>
          mediaVolume (snd (fadeTo callCb t1 t2 t3 targetVolume cb s)) =
            volumeScaler s (fadeLevel (newFade t1 t2 targetVolume cb s) t3)))"
  using assms
    fadeTo_time_left [where v = targetVolume and ?t3.0 = t3 and ?t2.0 = t2 and s = s
      and callCb = callCb and ?t1.0 = t1 and cb = cb, OF assms]
  by (simp add: fadeTo_def newFade_def)

text \<open>
  Halfway through the fade from 1 to 0 the media volume is \<open>10 powr (- 3 / 2)\<close>, the
  scaled level 0.5; a new fade then starts from \<open>10 powr (- 3 / 2)\<close>, not from 0.5.
\<close>

theorem fadeTo_start_volume_witness:
  "fade (snd (fadeTo (invoke returningAtOnce 1) 250 250 250 (Num 1) NotFunction halfway)) =
     Some \<lparr>volume_start = Num (10 powr (- 3 / 2)), volume_end = Num 1, time_start = Num 250,
       time_end = Num 750, callback = NotFunction\<rparr>"
proof -
  have valid: "validateVolumeLevel (Num 1) = None"
    by (simp add: validateVolumeLevel_None)
  have left: "js_lt (dateNow 250) (js_add (dateNow 250) (fadeDuration halfway))"
    by (simp add: halfway_eq dateNow_def)
  from fadeTo_start_volume [OF valid, of 250 250 NotFunction halfway "invoke returningAtOnce 1" 250]
    left
  have "fade (snd (fadeTo (invoke returningAtOnce 1) 250 250 250 (Num 1) NotFunction halfway)) =
      Some (newFade 250 250 (Num 1) NotFunction halfway)"
    by blast
  then show ?thesis
    by (simp add: newFade_def halfway_eq dateNow_def)
qed

end
